theory Spec2Isabelle
  imports Main
begin

section \<open>Syntax trees, as far as the validator inspects them\<close>

text \<open>
  The validator (\<^verbatim>\<open>precheck.py\<close>) never builds a tree itself: it receives the result
  of \<^verbatim>\<open>ast.parse\<close> and looks at a few node kinds and fields. The datatypes below
  keep exactly those node kinds and fields. Identifiers and file names are byte
  strings; every comparison the validator makes on them is an equality, a suffix test or
  a split at an ASCII dot.
\<close>

text \<open>
  Expressions: \<^verbatim>\<open>ast.Name(id)\<close>, \<^verbatim>\<open>ast.Attribute(value, attr)\<close> and
  \<^verbatim>\<open>ast.Call(func, args)\<close> (the positional arguments only; keyword arguments are never
  read). Every other expression is \<open>OtherExpr\<close>.
\<close>

datatype expr =
    Name string
  | Attribute expr string
  | Call expr "expr list"
  | OtherExpr

text \<open>
  \<^verbatim>\<open>ast.arguments\<close>, parameter names only. \<open>vararg\<close> and \<open>kwarg\<close> are \<^verbatim>\<open>None\<close> or one
  parameter.
\<close>

record arguments =
  posonlyargs :: "string list"
  args :: "string list"
  vararg :: "string option"
  kwonlyargs :: "string list"
  kwarg :: "string option"

text \<open>
  Statements. \<open>FunctionDef name args body decorator_list\<close> and its asynchronous twin,
  \<open>ClassDef name body\<close>, \<open>Import names\<close> (the dotted name of each alias),
  \<open>ImportFrom module level\<close>, \<open>Expr value\<close>. \<open>OtherNode children\<close> is any other node
  together with the nodes below it that can hold statements, in the order of
  \<^verbatim>\<open>ast.iter_child_nodes\<close>: an \<^verbatim>\<open>if\<close>, a loop, a \<^verbatim>\<open>with\<close>, a \<^verbatim>\<open>try\<close> and also the
  handler of a \<^verbatim>\<open>try\<close> or the case of a \<^verbatim>\<open>match\<close>, which sit between the statement and
  the statements of their bodies.
\<close>

datatype stmt =
    FunctionDef string arguments "stmt list" "expr list"
  | AsyncFunctionDef string arguments "stmt list" "expr list"
  | ClassDef string "stmt list"
  | Import "string list"
  | ImportFrom "string option" nat
  | Expr expr
  | OtherNode "stmt list"

type_synonym path = "string list"

section \<open>Output, exit and exceptions\<close>

text \<open>
  One constructor for each message the validator passes to \<^verbatim>\<open>fail\<close>, with the values
  the message interpolates.
\<close>

datatype message =
    FlowsDirNotFound path
  | BadFlowFileName string
  | NoFlowClass path
  | ManyFlowClasses path nat
  | RunMissing path string
  | RunNotAsync path string
  | RunNotClassmethod path string
  | RunWithoutTotalUsage path string
  | MissingFile string path
  | MissingDirectory string path
  | DemoMainNotFound path
  | MainNotAsync path
  | MainMissing path
  | MainTakesArguments path
  | MainNotCalled path
  | FileTooLong path nat nat
  | ReadmeMissing path
  | ReadmeEmpty
  | ReadmeNoHeading
  | ReadmeNoDescription
  | ReadmeNoInstall
  | ReadmeNoRun
  | AppDirMissing path
  | AppBadDirectory string
  | AppBadFile string
  | LocalImport path string
  | LocalImportFrom path string

text \<open>
  The lines written to standard output: the opening line of \<^verbatim>\<open>main\<close>, the check mark
  each check prints when it returns, the cross of \<^verbatim>\<open>fail\<close> and the closing banner.
\<close>

datatype line =
    Starting
  | ProjectStructureOk
  | AppContentsOk
  | AppImportsOk
  | FlowsStructureOk
  | DemoMainOk
  | RunOk string string
  | ReadmeOk
  | Cross message
  | AllPassed

text \<open>Exceptions nothing catches: they end the process with a traceback on standard error.\<close>

datatype exn =
    SyntaxError path
  | OSError path

text \<open>
  How a piece of the program ends: it returns, it leaves through \<^verbatim>\<open>sys.exit(n)\<close> or an
  exception escapes. A run is what was printed and how it ended.
\<close>

datatype status = Returned | Exited nat | Raised exn

type_synonym run = "line list \<times> status"

definition print :: "line \<Rightarrow> run" where
  "print l = ([l], Returned)"

definition fail :: "message \<Rightarrow> run" where
  "fail m = ([Cross m], Exited 1)"

definition raise :: "exn \<Rightarrow> run" where
  "raise e = ([], Raised e)"

definition skip :: run where
  "skip = ([], Returned)"

text \<open>Sequential composition: the second part runs only when the first returns.\<close>

definition then_run :: "run \<Rightarrow> run \<Rightarrow> run" where
  "then_run a b = (case snd a of Returned \<Rightarrow> (fst a @ fst b, snd b) | _ \<Rightarrow> a)"

fun seq :: "run list \<Rightarrow> run" where
  "seq [] = skip"
| "seq (r # rs) = then_run r (seq rs)"

text \<open>The exit code of the process.\<close>

fun exit_code :: "status \<Rightarrow> nat" where
  "exit_code Returned = 0"
| "exit_code (Exited n) = n"
| "exit_code (Raised e) = 1"

section \<open>The run method of a Flow class\<close>

definition endswith :: "string \<Rightarrow> string \<Rightarrow> bool" where
  "endswith s suf \<longleftrightarrow> length suf \<le> length s \<and> drop (length s - length suf) s = suf"

text \<open>The last component of a path (\<^verbatim>\<open>file.name\<close>).\<close>

definition name_of :: "path \<Rightarrow> string" where
  "name_of p = (if p = [] then [] else last p)"

text \<open>
  The loop of \<^verbatim>\<open>check_run_method\<close> that looks for \<^verbatim>\<open>run\<close>: the first member that is a
  \<^verbatim>\<open>FunctionDef\<close> or an \<^verbatim>\<open>AsyncFunctionDef\<close> named \<^verbatim>\<open>run\<close>, then \<^verbatim>\<open>break\<close>.
\<close>

fun is_run_def :: "stmt \<Rightarrow> bool" where
  "is_run_def (FunctionDef n a b d) = (n = ''run'')"
| "is_run_def (AsyncFunctionDef n a b d) = (n = ''run'')"
| "is_run_def _ = False"

fun run_method :: "stmt list \<Rightarrow> stmt option" where
  "run_method [] = None"
| "run_method (item # rest) = (if is_run_def item then Some item else run_method rest)"

text \<open>One element of \<^verbatim>\<open>decorator_list\<close> as the \<^verbatim>\<open>any(...)\<close> of the source tests it.\<close>

fun is_classmethod :: "expr \<Rightarrow> bool" where
  "is_classmethod (Name i) = (i = ''classmethod'')"
| "is_classmethod (Attribute v a) = (a = ''classmethod'')"
| "is_classmethod _ = False"

definition has_classmethod :: "expr list \<Rightarrow> bool" where
  "has_classmethod decorator_list = list_ex is_classmethod decorator_list"

text \<open>
  The checks on the method found, in the order of the source: asynchronous, decorated,
  \<^verbatim>\<open>total_usage\<close> among the keyword-only parameters.
\<close>

fun check_run_shape :: "stmt \<Rightarrow> string \<Rightarrow> path \<Rightarrow> run" where
  "check_run_shape (AsyncFunctionDef n a b decorator_list) cls file =
     (if \<not> has_classmethod decorator_list then fail (RunNotClassmethod file cls)
      else if ''total_usage'' \<notin> set (kwonlyargs a) then fail (RunWithoutTotalUsage file cls)
      else print (RunOk cls (name_of file)))"
| "check_run_shape _ cls file = fail (RunNotAsync file cls)"

text \<open>
  \<^verbatim>\<open>check_run_method(class_node, file)\<close>, with \<^verbatim>\<open>class_node.name\<close> and
  \<^verbatim>\<open>class_node.body\<close> as arguments.
\<close>

definition check_run_method :: "string \<Rightarrow> stmt list \<Rightarrow> path \<Rightarrow> run" where
  "check_run_method cls body file =
     (case run_method body of
        None \<Rightarrow> fail (RunMissing file cls)
      | Some m \<Rightarrow> check_run_shape m cls file)"

section \<open>The project on disk\<close>

text \<open>
  A file as the validator reads it: \<open>read_text\<close> is the decoded text, a list of code
  points, and \<open>ast_parse\<close> is the body of the module \<^verbatim>\<open>ast.parse\<close> returns for that
  text, \<open>None\<close> when it raises \<^verbatim>\<open>SyntaxError\<close>. The parser is outside the validator.
\<close>

record regular_file =
  read_text :: "nat list"
  ast_parse :: "stmt list option"

text \<open>
  A directory lists its entries in the order the operating system returns them.
  \<open>Special\<close> is an entry that is neither a regular file nor a directory.
\<close>

datatype fsnode = File regular_file | Dir "(string \<times> fsnode) list" | Special

text \<open>
  \<open>project_root\<close> holds the components of \<^verbatim>\<open>PROJECT_ROOT\<close>, an absolute path, and
  \<open>entries\<close> is the listing of that directory. Paths inside the project are written
  relative to it; \<open>abspath\<close> gives the path the validator prints and whose \<^verbatim>\<open>parts\<close>
  it reads.
\<close>

record project =
  project_root :: path
  entries :: "(string \<times> fsnode) list"

definition abspath :: "project \<Rightarrow> path \<Rightarrow> path" where
  "abspath pr rel = project_root pr @ rel"

fun lookup :: "(string \<times> fsnode) list \<Rightarrow> path \<Rightarrow> fsnode option" where
  "lookup es [] = Some (Dir es)"
| "lookup es (c # cs) =
     (case map_of es c of
        None \<Rightarrow> None
      | Some (Dir es') \<Rightarrow> lookup es' cs
      | Some x \<Rightarrow> (if cs = [] then Some x else None))"

definition exists :: "project \<Rightarrow> path \<Rightarrow> bool" where
  "exists pr rel \<longleftrightarrow> lookup (entries pr) rel \<noteq> None"

fun is_File :: "fsnode \<Rightarrow> bool" where
  "is_File (File f) = True"
| "is_File _ = False"

fun is_Dir :: "fsnode \<Rightarrow> bool" where
  "is_Dir (Dir es) = True"
| "is_Dir _ = False"

definition is_file :: "project \<Rightarrow> path \<Rightarrow> bool" where
  "is_file pr rel = (case lookup (entries pr) rel of Some x \<Rightarrow> is_File x | None \<Rightarrow> False)"

definition is_dir :: "project \<Rightarrow> path \<Rightarrow> bool" where
  "is_dir pr rel = (case lookup (entries pr) rel of Some x \<Rightarrow> is_Dir x | None \<Rightarrow> False)"

text \<open>\<^verbatim>\<open>iterdir\<close> of a directory that exists; the validator calls it on no other path.\<close>

definition iterdir :: "project \<Rightarrow> path \<Rightarrow> (string \<times> fsnode) list" where
  "iterdir pr rel = (case lookup (entries pr) rel of Some (Dir es) \<Rightarrow> es | _ \<Rightarrow> [])"

text \<open>
  \<^verbatim>\<open>Path.glob\<close> with a pattern of one component: the entries of the directory whose
  name matches, files and directories alike; nothing when the directory is missing.
\<close>

definition glob :: "(string \<Rightarrow> bool) \<Rightarrow> project \<Rightarrow> path \<Rightarrow> (path \<times> fsnode) list" where
  "glob matches pr rel =
     map (\<lambda>(n, x). (abspath pr (rel @ [n]), x)) (filter (\<lambda>(n, x). matches n) (iterdir pr rel))"

text \<open>
  \<^verbatim>\<open>Path.rglob\<close>: every directory of the subtree is visited, a directory before the
  directories inside it, and yields its own matching entries when it is visited.
\<close>

fun rglob_node :: "(string \<Rightarrow> bool) \<Rightarrow> path \<Rightarrow> fsnode \<Rightarrow> (path \<times> fsnode) list"
  and rglob_dirs :: "(string \<Rightarrow> bool) \<Rightarrow> path \<Rightarrow> (string \<times> fsnode) list \<Rightarrow> (path \<times> fsnode) list"
where
  "rglob_node matches p (Dir es) =
     map (\<lambda>(n, x). (p @ [n], x)) (filter (\<lambda>(n, x). matches n) es) @ rglob_dirs matches p es"
| "rglob_node matches p (File f) = []"
| "rglob_node matches p Special = []"
| "rglob_dirs matches p [] = []"
| "rglob_dirs matches p ((n, x) # rest) = rglob_node matches (p @ [n]) x @ rglob_dirs matches p rest"

definition rglob :: "(string \<Rightarrow> bool) \<Rightarrow> project \<Rightarrow> path \<Rightarrow> (path \<times> fsnode) list" where
  "rglob matches pr rel =
     (case lookup (entries pr) rel of
        Some x \<Rightarrow> rglob_node matches (abspath pr rel) x
      | None \<Rightarrow> [])"

text \<open>
  \<^verbatim>\<open>ast.parse(file.read_text())\<close>: reading something that is not a regular file raises,
  and so does text that does not parse.
\<close>

fun parse_file :: "path \<Rightarrow> fsnode \<Rightarrow> exn + stmt list" where
  "parse_file p (File f) = (case ast_parse f of None \<Rightarrow> Inl (SyntaxError p) | Some body \<Rightarrow> Inr body)"
| "parse_file p _ = Inl (OSError p)"

definition FLOWS_DIR :: path where
  "FLOWS_DIR = [''app'', ''outsource'', ''flows'']"

section \<open>Flow files\<close>

definition check_structure :: "project \<Rightarrow> run" where
  "check_structure pr =
     seq [if \<not> exists pr FLOWS_DIR \<or> \<not> is_dir pr FLOWS_DIR
            then fail (FlowsDirNotFound (abspath pr FLOWS_DIR)) else skip,
          seq (map (\<lambda>(name, x).
                 if \<not> is_File x then skip
                 else if name \<in> {''__init__.py''} then skip
                 else if \<not> endswith name ''_flow.py'' then fail (BadFlowFileName name)
                 else skip)
               (iterdir pr FLOWS_DIR)),
          print FlowsStructureOk]"

text \<open>The \<^verbatim>\<open>ClassDef\<close> nodes of a statement list, as pairs of name and body.\<close>

fun classes :: "stmt list \<Rightarrow> (string \<times> stmt list) list" where
  "classes [] = []"
| "classes (ClassDef n b # rest) = (n, b) # classes rest"
| "classes (node # rest) = classes rest"

definition flow_classes :: "stmt list \<Rightarrow> (string \<times> stmt list) list" where
  "flow_classes body = filter (\<lambda>(n, b). endswith n ''Flow'') (classes body)"

definition check_flow_tree :: "path \<Rightarrow> stmt list \<Rightarrow> run" where
  "check_flow_tree file body =
     (case flow_classes body of
        [] \<Rightarrow> fail (NoFlowClass file)
      | (n, b) # others \<Rightarrow>
          if length (flow_classes body) > 1
            then fail (ManyFlowClasses file (length (flow_classes body)))
          else check_run_method n b file)"

definition check_flow_file :: "path \<times> fsnode \<Rightarrow> run" where
  "check_flow_file f =
     (case parse_file (fst f) (snd f) of
        Inl e \<Rightarrow> raise e
      | Inr body \<Rightarrow> check_flow_tree (fst f) body)"

definition check_flow_run_signature :: "project \<Rightarrow> run" where
  "check_flow_run_signature pr =
     seq (map check_flow_file (glob (\<lambda>n. endswith n ''_flow.py'') pr FLOWS_DIR))"

section \<open>The demonstration entry point\<close>

definition main_path :: path where
  "main_path = [''demonstration'', ''main.py'']"

text \<open>
  The first loop of \<^verbatim>\<open>check_demo_main\<close>: the first top-level \<^verbatim>\<open>AsyncFunctionDef\<close>
  named \<^verbatim>\<open>main\<close>. Only its \<^verbatim>\<open>args\<close> are read afterwards, so they are what is returned.
\<close>

fun main_func :: "stmt list \<Rightarrow> arguments option" where
  "main_func [] = None"
| "main_func (AsyncFunctionDef n a b d # rest) = (if n = ''main'' then Some a else main_func rest)"
| "main_func (node # rest) = main_func rest"

fun is_sync_main :: "stmt \<Rightarrow> bool" where
  "is_sync_main (FunctionDef n a b d) = (n = ''main'')"
| "is_sync_main _ = False"

text \<open>
  The condition under which \<^verbatim>\<open>check_demo_main\<close> reports that \<^verbatim>\<open>main\<close> takes
  arguments: the truth values of the four fields the source names.
\<close>

definition has_arguments :: "arguments \<Rightarrow> bool" where
  "has_arguments a \<longleftrightarrow> args a \<noteq> [] \<or> kwonlyargs a \<noteq> [] \<or> vararg a \<noteq> None \<or> kwarg a \<noteq> None"

text \<open>
  One round of the last loop, for one top-level node: does it set \<^verbatim>\<open>calls_main\<close>? The
  node has to be an expression statement whose value is a call, either of the name
  \<^verbatim>\<open>main\<close>, or of \<^verbatim>\<open>asyncio.run\<close> with a non-empty argument list whose element 0 is a
  call of the name \<^verbatim>\<open>main\<close>.
\<close>

definition invokes_main :: "stmt \<Rightarrow> bool" where
  "invokes_main node =
     (case node of
        Expr call \<Rightarrow>
          (case call of
             Call func call_args \<Rightarrow>
               (case func of
                  Name i \<Rightarrow> i = ''main''
                | Attribute v attr \<Rightarrow>
                    attr = ''run''
                    \<and> (case v of Name base \<Rightarrow> base = ''asyncio'' | _ \<Rightarrow> False)
                    \<and> (case call_args of
                         [] \<Rightarrow> False
                       | inner # _ \<Rightarrow>
                           (case inner of
                              Call f _ \<Rightarrow> (case f of Name j \<Rightarrow> j = ''main'' | _ \<Rightarrow> False)
                            | _ \<Rightarrow> False))
                | _ \<Rightarrow> False)
           | _ \<Rightarrow> False)
      | _ \<Rightarrow> False)"

text \<open>The loop itself, over the nodes in the order given; it stops at the first hit.\<close>

fun calls_main :: "stmt list \<Rightarrow> bool" where
  "calls_main [] = False"
| "calls_main (node # rest) = (if invokes_main node then True else calls_main rest)"

definition check_demo_tree :: "path \<Rightarrow> stmt list \<Rightarrow> run" where
  "check_demo_tree p body =
     (case main_func body of
        None \<Rightarrow>
          if list_ex is_sync_main body then fail (MainNotAsync p) else fail (MainMissing p)
      | Some a \<Rightarrow>
          if has_arguments a then fail (MainTakesArguments p)
          else if \<not> calls_main (rev body) then fail (MainNotCalled p)
          else print DemoMainOk)"

definition check_demo_main :: "project \<Rightarrow> run" where
  "check_demo_main pr =
     (case lookup (entries pr) main_path of
        Some (File f) \<Rightarrow>
          (case ast_parse f of
             None \<Rightarrow> raise (SyntaxError (abspath pr main_path))
           | Some body \<Rightarrow> check_demo_tree (abspath pr main_path) body)
      | _ \<Rightarrow> fail (DemoMainNotFound (abspath pr main_path)))"

section \<open>File lengths\<close>

text \<open>
  \<^verbatim>\<open>str.splitlines\<close>: a line ends at a line feed, a carriage return (with the line feed
  that follows it, if any), a vertical tab, a form feed, a file, group or record
  separator, a next-line character, or a Unicode line or paragraph separator; text after
  the last boundary is a line when it is not empty. The first argument is the line
  being read, reversed.
\<close>

definition line_boundary :: "nat \<Rightarrow> bool" where
  "line_boundary c \<longleftrightarrow> c \<in> {10, 11, 12, 13, 28, 29, 30, 133, 8232, 8233}"

fun split_from :: "nat list \<Rightarrow> nat list \<Rightarrow> nat list list" where
  "split_from cur [] = (if cur = [] then [] else [rev cur])"
| "split_from cur (c # cs) =
     (if c = 13 then
        (case cs of
           [] \<Rightarrow> [rev cur]
         | c' # cs' \<Rightarrow> if c' = 10 then rev cur # split_from [] cs' else rev cur # split_from [] cs)
      else if line_boundary c then rev cur # split_from [] cs
      else split_from (c # cur) cs)"

definition splitlines :: "nat list \<Rightarrow> nat list list" where
  "splitlines s = split_from [] s"

definition check_file_length :: "path \<times> fsnode \<Rightarrow> nat \<Rightarrow> run" where
  "check_file_length f max_lines =
     (case snd f of
        File d \<Rightarrow>
          if length (splitlines (read_text d)) > max_lines
            then fail (FileTooLong (fst f) (length (splitlines (read_text d))) max_lines)
          else skip
      | _ \<Rightarrow> raise (OSError (fst f)))"

text \<open>The paths come from \<^verbatim>\<open>PROJECT_ROOT.rglob("*.py")\<close>; a path is the list of its parts.\<close>

definition check_all_python_files_length :: "nat \<Rightarrow> project \<Rightarrow> run" where
  "check_all_python_files_length max_lines pr =
     seq (map (\<lambda>f. if ''venv'' \<in> set (fst f) \<or> ''env'' \<in> set (fst f) then skip
                    else check_file_length f max_lines)
            (rglob (\<lambda>n. endswith n ''.py'') pr []))"

section \<open>The README\<close>

text \<open>
  \<^verbatim>\<open>str.strip()\<close> removes the characters for which \<^verbatim>\<open>str.isspace\<close> holds from both
  ends.
\<close>

definition isspace :: "nat \<Rightarrow> bool" where
  "isspace c \<longleftrightarrow>
     (9 \<le> c \<and> c \<le> 13) \<or> (28 \<le> c \<and> c \<le> 32) \<or> c = 133 \<or> c = 160 \<or> c = 5760
     \<or> (8192 \<le> c \<and> c \<le> 8202) \<or> c = 8232 \<or> c = 8233 \<or> c = 8239 \<or> c = 8287 \<or> c = 12288"

definition strip :: "nat list \<Rightarrow> nat list" where
  "strip s = rev (dropWhile isspace (rev (dropWhile isspace s)))"

definition startswith :: "nat list \<Rightarrow> nat list \<Rightarrow> bool" where
  "startswith s p \<longleftrightarrow> take (length p) s = p"

text \<open>\<^verbatim>\<open>needle in hay\<close> for strings: \<open>needle\<close> occurs in \<open>hay\<close> as a contiguous piece.\<close>

fun contains :: "nat list \<Rightarrow> nat list \<Rightarrow> bool" where
  "contains [] needle = (needle = [])"
| "contains (h # hs) needle = (take (length needle) (h # hs) = needle \<or> contains hs needle)"

text \<open>
  The keyword lists, as code points. The first and the fourth installation keyword and
  the first, fourth and fifth run keyword are Russian words in Cyrillic letters; the
  others are \<^verbatim>\<open>installation\<close>, \<^verbatim>\<open>setup\<close>, \<^verbatim>\<open>install\<close> and \<^verbatim>\<open>run\<close>, \<^verbatim>\<open>usage\<close>.
\<close>

definition install_keywords :: "nat list list" where
  "install_keywords =
     [[1091, 1089, 1090, 1072, 1085, 1086, 1074, 1082, 1072],
      [105, 110, 115, 116, 97, 108, 108, 97, 116, 105, 111, 110],
      [115, 101, 116, 117, 112],
      [1080, 1085, 1089, 1090, 1072, 1083, 1083, 1103, 1094, 1080, 1103],
      [105, 110, 115, 116, 97, 108, 108]]"

definition run_keywords :: "nat list list" where
  "run_keywords =
     [[1079, 1072, 1087, 1091, 1089, 1082],
      [114, 117, 110],
      [117, 115, 97, 103, 101],
      [1080, 1089, 1087, 1086, 1083, 1100, 1079, 1086, 1074, 1072, 1085, 1080, 1077],
      [1076, 1077, 1084, 1086, 1085, 1089, 1090, 1088, 1072, 1094, 1080, 1103]]"

text \<open>
  \<open>lower\<close> stands for \<^verbatim>\<open>str.lower\<close>, the case mapping of the Unicode database, which the
  validator takes from the language. Code point 35 is the hash sign.
\<close>

definition check_readme_content :: "(nat list \<Rightarrow> nat list) \<Rightarrow> nat list \<Rightarrow> run" where
  "check_readme_content lower content =
     (if content = [] then fail ReadmeEmpty
      else if \<not> startswith content [35] then fail ReadmeNoHeading
      else if \<not> list_ex (\<lambda>line. length (strip line) > 10)
                 (filter (\<lambda>line. \<not> startswith line [35]) (take 15 (splitlines content)))
        then fail ReadmeNoDescription
      else if \<not> list_ex (\<lambda>keyword. contains (lower content) (lower keyword)) install_keywords
        then fail ReadmeNoInstall
      else if \<not> list_ex (\<lambda>keyword. contains (lower content) (lower keyword)) run_keywords
        then fail ReadmeNoRun
      else print ReadmeOk)"

definition check_readme :: "(nat list \<Rightarrow> nat list) \<Rightarrow> project \<Rightarrow> run" where
  "check_readme lower pr =
     (case lookup (entries pr) [''README.md''] of
        Some (File f) \<Rightarrow> check_readme_content lower (strip (read_text f))
      | _ \<Rightarrow> fail (ReadmeMissing (abspath pr [''README.md''])))"

section \<open>The contents of app and the project structure\<close>

definition check_app_directory_contents :: "project \<Rightarrow> run" where
  "check_app_directory_contents pr =
     (if \<not> is_dir pr [''app''] then fail (AppDirMissing (abspath pr [''app'']))
      else seq [seq (map (\<lambda>(name, item).
                       if is_Dir item then
                         (if name \<notin> {''outsource''} then fail (AppBadDirectory name) else skip)
                       else if is_File item then
                         (if name \<notin> {''consts.py'', ''__init__.py''} then fail (AppBadFile name)
                          else skip)
                       else skip)
                     (iterdir pr [''app''])),
                print AppContentsOk])"

text \<open>The dictionary \<^verbatim>\<open>required_structure\<close>, in the order of its keys.\<close>

definition required_structure :: "(string \<times> path) list" where
  "required_structure =
     [(''app'', [''app'']),
      (''app/outsource'', [''app'', ''outsource'']),
      (''app/outsource/flows'', [''app'', ''outsource'', ''flows'']),
      (''app/consts.py'', [''app'', ''consts.py'']),
      (''demonstration'', [''demonstration'']),
      (''demonstration/main.py'', [''demonstration'', ''main.py'']),
      (''eksmo_src'', [''eksmo_src'']),
      (''.pre-commit-config.yaml'', [''.pre-commit-config.yaml'']),
      (''pyproject.toml'', [''pyproject.toml'']),
      (''README.md'', [''README.md''])]"

definition check_project_structure :: "project \<Rightarrow> run" where
  "check_project_structure pr =
     seq [seq (map (\<lambda>(description, p).
                 if endswith description ''.py'' \<or> endswith description ''.yaml''
                    \<or> endswith description ''.toml'' \<or> endswith description ''.md''
                 then (if \<not> is_file pr p then fail (MissingFile description (abspath pr p))
                       else skip)
                 else (if \<not> is_dir pr p then fail (MissingDirectory description (abspath pr p))
                       else skip))
               required_structure),
          print ProjectStructureOk]"

section \<open>Imports inside app\<close>

text \<open>
  \<^verbatim>\<open>PurePath.suffix\<close> and \<^verbatim>\<open>PurePath.stem\<close> of a name: with \<open>i\<close> the index of the last
  dot (\<open>-1\<close> when there is none), the suffix starts at \<open>i\<close> and the stem ends there when
  \<open>0 < i < len(name) - 1\<close>; otherwise the suffix is empty and the stem is the name.
\<close>

definition rfind_dot :: "string \<Rightarrow> int" where
  "rfind_dot name = int (length (dropWhile (\<lambda>c. c \<noteq> CHR ''.'') (rev name))) - 1"

definition path_suffix :: "string \<Rightarrow> string" where
  "path_suffix name =
     (if 0 < rfind_dot name \<and> rfind_dot name < int (length name) - 1
        then drop (nat (rfind_dot name)) name else [])"

definition path_stem :: "string \<Rightarrow> string" where
  "path_stem name =
     (if 0 < rfind_dot name \<and> rfind_dot name < int (length name) - 1
        then take (nat (rfind_dot name)) name else name)"

text \<open>The first loop of \<^verbatim>\<open>check_app_imports\<close>, over \<^verbatim>\<open>PROJECT_ROOT.iterdir()\<close>.\<close>

fun local_modules :: "(string \<times> fsnode) list \<Rightarrow> string set" where
  "local_modules [] = {}"
| "local_modules ((name, item) # rest) =
     (if name = ''app'' then local_modules rest
      else (if is_Dir item then {name} else {})
           \<union> (if is_File item \<and> path_suffix name = ''.py'' then {path_stem name} else {})
           \<union> local_modules rest)"

definition allowed_full_import :: string where
  "allowed_full_import = ''eksmo_src.eksmo_types''"

text \<open>\<^verbatim>\<open>full_name.split(".")[0]\<close>\<close>

definition top_module :: "string \<Rightarrow> string" where
  "top_module full_name = takeWhile (\<lambda>c. c \<noteq> CHR ''.'') full_name"

text \<open>
  What both branches do with one dotted path: nothing for the allowed path, \<^verbatim>\<open>fail\<close>
  with the branch's message for a path whose first segment is a local module other than
  \<^verbatim>\<open>app\<close>, nothing otherwise.
\<close>

definition check_import_name :: "string set \<Rightarrow> message \<Rightarrow> string \<Rightarrow> run" where
  "check_import_name local msg full_name =
     (if full_name = allowed_full_import then skip
      else if top_module full_name \<in> local \<and> top_module full_name \<noteq> ''app'' then fail msg
      else skip)"

fun check_import_node :: "string set \<Rightarrow> path \<Rightarrow> stmt \<Rightarrow> run" where
  "check_import_node local py_file (Import names) =
     seq (map (\<lambda>full_name. check_import_name local (LocalImport py_file full_name) full_name) names)"
| "check_import_node local py_file (ImportFrom module level) =
     (if level \<noteq> 0 then skip
      else (case module of
              None \<Rightarrow> skip
            | Some full_module \<Rightarrow>
                check_import_name local (LocalImportFrom py_file full_module) full_module))"
| "check_import_node local py_file _ = skip"

text \<open>
  \<^verbatim>\<open>ast.walk\<close>: a queue of nodes; the node at the front is taken off, the nodes directly
  below it join the back of the queue, and the node is yielded.
\<close>

fun child_nodes :: "stmt \<Rightarrow> stmt list" where
  "child_nodes (FunctionDef n a b d) = b"
| "child_nodes (AsyncFunctionDef n a b d) = b"
| "child_nodes (ClassDef n b) = b"
| "child_nodes (OtherNode cs) = cs"
| "child_nodes _ = []"

function walk :: "stmt list \<Rightarrow> stmt list" where
  "walk [] = []"
| "walk (node # todo) = node # walk (todo @ child_nodes node)"
  by pat_completeness auto
termination
proof (relation "measure (\<lambda>todo. sum_list (map (\<lambda>n. Suc (size n)) todo))")
  show "wf (measure (\<lambda>todo. sum_list (map (\<lambda>n. Suc (size n)) todo)))" by simp
next
  fix node :: stmt and todo :: "stmt list"
  have below: "sum_list (map (\<lambda>n. Suc (size n)) cs) \<le> size_list size cs" for cs :: "stmt list"
    by (induction cs) simp_all
  have "sum_list (map (\<lambda>n. Suc (size n)) (child_nodes node)) < Suc (size node)"
  proof (cases node)
    case (FunctionDef n a b d)
    with below [of b] show ?thesis by simp
  next
    case (AsyncFunctionDef n a b d)
    with below [of b] show ?thesis by simp
  next
    case (ClassDef n b)
    with below [of b] show ?thesis by simp
  next
    case (OtherNode cs)
    with below [of cs] show ?thesis by simp
  qed simp_all
  then show "(todo @ child_nodes node, node # todo)
      \<in> measure (\<lambda>todo. sum_list (map (\<lambda>n. Suc (size n)) todo))"
    by simp
qed

definition check_app_file :: "string set \<Rightarrow> path \<times> fsnode \<Rightarrow> run" where
  "check_app_file local f =
     (case parse_file (fst f) (snd f) of
        Inl e \<Rightarrow> raise e
      | Inr body \<Rightarrow> seq (map (check_import_node local (fst f)) (walk body)))"

definition check_app_imports :: "project \<Rightarrow> run" where
  "check_app_imports pr =
     seq [seq (map (check_app_file (local_modules (entries pr)))
                 (rglob (\<lambda>n. endswith n ''.py'') pr [''app''])),
          print AppImportsOk]"

section \<open>The whole run\<close>

definition main :: "(nat list \<Rightarrow> nat list) \<Rightarrow> project \<Rightarrow> run" where
  "main lower pr =
     seq [print Starting,
          check_project_structure pr,
          check_app_directory_contents pr,
          check_app_imports pr,
          check_structure pr,
          check_demo_main pr,
          check_flow_run_signature pr,
          check_readme lower pr,
          check_all_python_files_length 1000 pr,
          print AllPassed]"

section \<open>The specification's wording, for comparison\<close>

text \<open>
  The invocation shapes as the specification words them: a call of the name \<^verbatim>\<open>main\<close>,
  or a call of \<^verbatim>\<open>asyncio.run\<close> whose sole positional argument is a call of the name
  \<^verbatim>\<open>main\<close>. This definition follows the specification, not the source.
\<close>

fun qualifying_call_spec :: "stmt \<Rightarrow> bool" where
  "qualifying_call_spec (Expr (Call (Name i) as)) = (i = ''main'')"
| "qualifying_call_spec (Expr (Call (Attribute (Name b) attr) [Call (Name j) as])) =
     (attr = ''run'' \<and> b = ''asyncio'' \<and> j = ''main'')"
| "qualifying_call_spec _ = False"


text \<open>
  The import scan as the specification's contract words it: the ordered sequence of all
  violations of all files of the subtree, each file given by its path and its parsed
  body. This definition follows the specification, not the source.
\<close>

fun import_violations :: "string set \<Rightarrow> path \<Rightarrow> stmt \<Rightarrow> message list" where
  "import_violations local py_file (Import names) =
     map (LocalImport py_file)
       (filter (\<lambda>full_name. full_name \<noteq> allowed_full_import
                  \<and> top_module full_name \<in> local \<and> top_module full_name \<noteq> ''app'') names)"
| "import_violations local py_file (ImportFrom (Some full_module) level) =
     (if level = 0 \<and> full_module \<noteq> allowed_full_import
         \<and> top_module full_module \<in> local \<and> top_module full_module \<noteq> ''app''
      then [LocalImportFrom py_file full_module] else [])"
| "import_violations local py_file _ = []"

definition scanPackageImports_spec :: "string set \<Rightarrow> (path \<times> stmt list) list \<Rightarrow> message list" where
  "scanPackageImports_spec local files =
     concat (map (\<lambda>f. concat (map (import_violations local (fst f)) (walk (snd f)))) files)"

text \<open>
  The local-module set as the specification words it: the names of all directories and
  the stems of all \<^verbatim>\<open>.py\<close> files of the listing, with the name \<^verbatim>\<open>app\<close> taken out. This
  definition follows the specification, not the source.
\<close>

definition local_modules_spec :: "(string \<times> fsnode) list \<Rightarrow> string set" where
  "local_modules_spec es =
     (set (map fst (filter (\<lambda>e. is_Dir (snd e)) es))
      \<union> set (map (\<lambda>e. path_stem (fst e))
               (filter (\<lambda>e. is_File (snd e) \<and> path_suffix (fst e) = ''.py'') es)))
     - {''app''}"

section \<open>The run as a whole: notions for its statement\<close>

text \<open>The eight calls of \<^verbatim>\<open>main\<close>, in its order.\<close>

definition checks :: "(nat list \<Rightarrow> nat list) \<Rightarrow> project \<Rightarrow> run list" where
  "checks lower pr =
     [check_project_structure pr,
      check_app_directory_contents pr,
      check_app_imports pr,
      check_structure pr,
      check_demo_main pr,
      check_flow_run_signature pr,
      check_readme lower pr,
      check_all_python_files_length 1000 pr]"

text \<open>
  The shape of what a run leaves on standard output: no cross when it returns or an
  exception escapes; when it exits, the code is 1 and the cross is the last line and
  the only one. A check, in addition, never prints the closing banner.
\<close>

fun is_cross :: "line \<Rightarrow> bool" where
  "is_cross (Cross m) = True"
| "is_cross _ = False"

definition tidy :: "run \<Rightarrow> bool" where
  "tidy r =
     (case snd r of
        Returned \<Rightarrow> \<not> list_ex is_cross (fst r)
      | Exited n \<Rightarrow> n = 1 \<and> fst r \<noteq> [] \<and> is_cross (last (fst r))
                     \<and> \<not> list_ex is_cross (butlast (fst r))
      | Raised e \<Rightarrow> \<not> list_ex is_cross (fst r))"

definition orderly :: "run \<Rightarrow> bool" where
  "orderly r \<longleftrightarrow> AllPassed \<notin> set (fst r) \<and> tidy r"

section \<open>Properties of the run-method check\<close>

lemma has_classmethod_iff:
  "has_classmethod d \<longleftrightarrow>
     (\<exists>e\<in>set d. e = Name ''classmethod'' \<or> (\<exists>v. e = Attribute v ''classmethod''))"
proof -
  have "is_classmethod e \<longleftrightarrow> e = Name ''classmethod'' \<or> (\<exists>v. e = Attribute v ''classmethod'')"
    for e
    by (cases e) auto
  then show ?thesis by (simp add: has_classmethod_def list_ex_iff)
qed

text \<open>
  C1. Let \<open>m\<close> be the \<^verbatim>\<open>run\<close> member found in a Flow class. The check returns exactly
  when \<open>m\<close> is asynchronous, one of its decorators is the name \<^verbatim>\<open>classmethod\<close> or an
  attribute access ending in \<^verbatim>\<open>classmethod\<close>, and \<^verbatim>\<open>total_usage\<close> is among its
  keyword-only parameters (its other parameter lists are not consulted). The three tests
  run in this order and the first that fails decides the message: not asynchronous,
  then not a classmethod, then no keyword-only \<^verbatim>\<open>total_usage\<close>.
\<close>

theorem run_shape_validation:
  assumes "run_method body = Some m"
  shows "(snd (check_run_method cls body file) = Returned \<longleftrightarrow>
           (\<exists>n a b d. m = AsyncFunctionDef n a b d
              \<and> (\<exists>e\<in>set d. e = Name ''classmethod'' \<or> (\<exists>v. e = Attribute v ''classmethod''))
              \<and> ''total_usage'' \<in> set (kwonlyargs a)))
       \<and> ((\<forall>n a b d. m \<noteq> AsyncFunctionDef n a b d) \<longrightarrow>
            check_run_method cls body file = fail (RunNotAsync file cls))
       \<and> (\<forall>n a b d. m = AsyncFunctionDef n a b d
              \<and> \<not> (\<exists>e\<in>set d. e = Name ''classmethod'' \<or> (\<exists>v. e = Attribute v ''classmethod''))
            \<longrightarrow> check_run_method cls body file = fail (RunNotClassmethod file cls))
       \<and> (\<forall>n a b d. m = AsyncFunctionDef n a b d
              \<and> (\<exists>e\<in>set d. e = Name ''classmethod'' \<or> (\<exists>v. e = Attribute v ''classmethod''))
              \<and> ''total_usage'' \<notin> set (kwonlyargs a)
            \<longrightarrow> check_run_method cls body file = fail (RunWithoutTotalUsage file cls))
       \<and> (\<forall>n a b d. m = AsyncFunctionDef n a b d
              \<and> (\<exists>e\<in>set d. e = Name ''classmethod'' \<or> (\<exists>v. e = Attribute v ''classmethod''))
              \<and> ''total_usage'' \<in> set (kwonlyargs a)
            \<longrightarrow> check_run_method cls body file = print (RunOk cls (name_of file)))"
  using assms
  by (cases m) (auto simp: check_run_method_def has_classmethod_iff fail_def print_def)

text \<open>
  Instances: \<^verbatim>\<open>@tool.classmethod async def run(cls, *, total_usage)\<close> passes; with
  \<^verbatim>\<open>total_usage\<close> as an ordinary parameter the method is rejected for the missing
  keyword-only parameter; a synchronous \<^verbatim>\<open>run\<close> that has everything else is rejected for
  not being asynchronous.
\<close>

theorem run_shape_validation_witness:
  "check_run_method ''DemoFlow''
     [AsyncFunctionDef ''run''
        \<lparr>posonlyargs = [], args = [''cls''], vararg = None,
         kwonlyargs = [''total_usage''], kwarg = None\<rparr>
        [] [Attribute (Name ''tool'') ''classmethod'']]
     [''flows'', ''demo_flow.py'']
   = print (RunOk ''DemoFlow'' ''demo_flow.py'')
   \<and> check_run_method ''DemoFlow''
     [AsyncFunctionDef ''run''
        \<lparr>posonlyargs = [], args = [''cls'', ''total_usage''], vararg = None,
         kwonlyargs = [], kwarg = None\<rparr>
        [] [Name ''classmethod'']]
     [''flows'', ''demo_flow.py'']
   = fail (RunWithoutTotalUsage [''flows'', ''demo_flow.py''] ''DemoFlow'')
   \<and> check_run_method ''DemoFlow''
     [FunctionDef ''run''
        \<lparr>posonlyargs = [], args = [''cls''], vararg = None,
         kwonlyargs = [''total_usage''], kwarg = None\<rparr>
        [] [Name ''classmethod'']]
     [''flows'', ''demo_flow.py'']
   = fail (RunNotAsync [''flows'', ''demo_flow.py''] ''DemoFlow'')"
  using run_shape_validation
    [of "[AsyncFunctionDef ''run''
           \<lparr>posonlyargs = [], args = [''cls''], vararg = None,
            kwonlyargs = [''total_usage''], kwarg = None\<rparr>
           [] [Attribute (Name ''tool'') ''classmethod'']]"
        "AsyncFunctionDef ''run''
           \<lparr>posonlyargs = [], args = [''cls''], vararg = None,
            kwonlyargs = [''total_usage''], kwarg = None\<rparr>
           [] [Attribute (Name ''tool'') ''classmethod'']"
        "''DemoFlow''" "[''flows'', ''demo_flow.py'']"]
    run_shape_validation
    [of "[AsyncFunctionDef ''run''
        \<lparr>posonlyargs = [], args = [''cls'', ''total_usage''], vararg = None,
         kwonlyargs = [], kwarg = None\<rparr>
        [] [Name ''classmethod'']]"
        "AsyncFunctionDef ''run''
        \<lparr>posonlyargs = [], args = [''cls'', ''total_usage''], vararg = None,
         kwonlyargs = [], kwarg = None\<rparr>
        [] [Name ''classmethod'']"
        "''DemoFlow''" "[''flows'', ''demo_flow.py'']"]
    run_shape_validation
    [of "[FunctionDef ''run''
        \<lparr>posonlyargs = [], args = [''cls''], vararg = None,
         kwonlyargs = [''total_usage''], kwarg = None\<rparr>
        [] [Name ''classmethod'']]"
        "FunctionDef ''run''
        \<lparr>posonlyargs = [], args = [''cls''], vararg = None,
         kwonlyargs = [''total_usage''], kwarg = None\<rparr>
        [] [Name ''classmethod'']"
        "''DemoFlow''" "[''flows'', ''demo_flow.py'']"]
  by (simp add: name_of_def)

section \<open>Properties of the Flow-class search\<close>

lemma endswith_iff: "endswith s suf \<longleftrightarrow> (\<exists>pre. s = pre @ suf)"
proof
  assume "endswith s suf"
  then have "s = take (length s - length suf) s @ suf"
    unfolding endswith_def by (metis append_take_drop_id)
  then show "\<exists>pre. s = pre @ suf" ..
next
  assume "\<exists>pre. s = pre @ suf"
  then show "endswith s suf" by (auto simp: endswith_def)
qed

lemma set_classes: "set (classes body) = {(n, b). ClassDef n b \<in> set body}"
  by (induction body rule: classes.induct) auto

lemma length_flow_classes:
  "length (flow_classes body)
     = length (filter (\<lambda>s. \<exists>n b. s = ClassDef n b \<and> endswith n ''Flow'') body)"
  unfolding flow_classes_def
  by (induction body rule: classes.induct) auto

text \<open>
  C6. For a flow file that parses to the statement list \<open>body\<close>: the classes considered
  are the \<^verbatim>\<open>ClassDef\<close> nodes that are elements of \<open>body\<close> itself (a class inside another
  statement is not an element of \<open>body\<close>), a class counts exactly when its name is some
  prefix followed by \<^verbatim>\<open>Flow\<close>, and the number of matches is the number of such top-level
  nodes. No match gives the message that the class is missing, two or more give the
  message that carries this number, and a single match is handed to the check of its
  \<^verbatim>\<open>run\<close> method.
\<close>

theorem flow_class_search:
  assumes "ast_parse f = Some body"
  shows "set (flow_classes body)
           = {(n, b). ClassDef n b \<in> set body \<and> (\<exists>pre. n = pre @ ''Flow'')}
       \<and> length (flow_classes body)
           = length (filter (\<lambda>s. \<exists>n b pre. s = ClassDef n b \<and> n = pre @ ''Flow'') body)
       \<and> (length (flow_classes body) = 0 \<longrightarrow>
            check_flow_file (file, File f) = fail (NoFlowClass file))
       \<and> (length (flow_classes body) \<ge> 2 \<longrightarrow>
            check_flow_file (file, File f)
              = fail (ManyFlowClasses file (length (flow_classes body))))
       \<and> (\<forall>n b. flow_classes body = [(n, b)] \<longrightarrow>
            check_flow_file (file, File f) = check_run_method n b file)"
proof -
  have 1: "set (flow_classes body)
           = {(n, b). ClassDef n b \<in> set body \<and> (\<exists>pre. n = pre @ ''Flow'')}"
    by (auto simp: flow_classes_def set_classes endswith_iff)
  have 2: "length (flow_classes body)
           = length (filter (\<lambda>s. \<exists>n b pre. s = ClassDef n b \<and> n = pre @ ''Flow'') body)"
    by (simp add: length_flow_classes endswith_iff)
  have 3: "check_flow_file (file, File f) = check_flow_tree file body"
    using assms by (simp add: check_flow_file_def)
  have 4: "length (flow_classes body) = 0 \<longrightarrow> check_flow_tree file body = fail (NoFlowClass file)"
    by (simp add: check_flow_tree_def)
  have 5: "length (flow_classes body) \<ge> 2 \<longrightarrow>
        check_flow_tree file body = fail (ManyFlowClasses file (length (flow_classes body)))"
    by (cases "flow_classes body") (auto simp: check_flow_tree_def)
  have 6: "\<forall>n b. flow_classes body = [(n, b)] \<longrightarrow>
        check_flow_tree file body = check_run_method n b file"
    by (simp add: check_flow_tree_def)
  from 1 2 3 4 5 6 show ?thesis by simp
qed

text \<open>
  An instance: two top-level Flow classes and a third one nested in a class whose own
  name does not match; the count reported is 2.
\<close>

theorem flow_class_search_witness:
  "check_flow_file
     ([''flows'', ''a_flow.py''],
      File \<lparr>read_text = [],
            ast_parse = Some [ClassDef ''Outer'' [ClassDef ''InnerFlow'' []],
                              ClassDef ''AFlow'' [], ClassDef ''BFlow'' []]\<rparr>)
   = fail (ManyFlowClasses [''flows'', ''a_flow.py''] 2)"
  using flow_class_search
    [of "\<lparr>read_text = [],
          ast_parse = Some [ClassDef ''Outer'' [ClassDef ''InnerFlow'' []],
                            ClassDef ''AFlow'' [], ClassDef ''BFlow'' []]\<rparr>"
        "[ClassDef ''Outer'' [ClassDef ''InnerFlow'' []],
          ClassDef ''AFlow'' [], ClassDef ''BFlow'' []]"
        "[''flows'', ''a_flow.py'']"]
  by (simp add: flow_classes_def endswith_def numeral_2_eq_2)

section \<open>Properties of the search for run\<close>

lemma is_run_def_iff:
  "is_run_def item \<longleftrightarrow>
     (\<exists>a b d. item = FunctionDef ''run'' a b d \<or> item = AsyncFunctionDef ''run'' a b d)"
  by (cases item) auto

lemma run_method_None: "run_method body = None \<longleftrightarrow> (\<forall>item\<in>set body. \<not> is_run_def item)"
  by (induction body) auto

lemma run_method_first:
  "\<forall>item\<in>set pre. \<not> is_run_def item \<Longrightarrow> is_run_def m \<Longrightarrow> run_method (pre @ m # post) = Some m"
  by (induction pre) auto

text \<open>
  C7. A member counts as \<^verbatim>\<open>run\<close> exactly when it is a function definition, synchronous
  or asynchronous, named \<^verbatim>\<open>run\<close>. When no member of the class counts, the message is
  that \<^verbatim>\<open>run\<close> is absent. When \<open>m\<close> counts and no member before it does, \<open>m\<close> is the
  method found and validated, and the members after it change nothing: the outcome is
  that of the class cut off after \<open>m\<close>.
\<close>

theorem first_run_wins:
  "(is_run_def item \<longleftrightarrow>
      (\<exists>a b d. item = FunctionDef ''run'' a b d \<or> item = AsyncFunctionDef ''run'' a b d))
   \<and> ((\<forall>item\<in>set body. \<not> is_run_def item) \<longrightarrow>
        check_run_method cls body file = fail (RunMissing file cls))
   \<and> ((\<forall>item\<in>set pre. \<not> is_run_def item) \<and> is_run_def m \<longrightarrow>
        run_method (pre @ m # post) = Some m
        \<and> check_run_method cls (pre @ m # post) file = check_run_shape m cls file
        \<and> check_run_method cls (pre @ m # post) file = check_run_method cls (pre @ [m]) file)"
proof -
  have a: "(\<forall>item\<in>set body. \<not> is_run_def item) \<longrightarrow>
        check_run_method cls body file = fail (RunMissing file cls)"
    using run_method_None [of body] by (auto simp: check_run_method_def)
  have b: "(\<forall>item\<in>set pre. \<not> is_run_def item) \<and> is_run_def m \<longrightarrow>
        run_method (pre @ m # post) = Some m
        \<and> check_run_method cls (pre @ m # post) file = check_run_shape m cls file
        \<and> check_run_method cls (pre @ m # post) file = check_run_method cls (pre @ [m]) file"
    using run_method_first [of pre m post] run_method_first [of pre m "[]"]
    by (auto simp: check_run_method_def)
  from a b is_run_def_iff [of item] show ?thesis by blast
qed

text \<open>
  An instance: a synchronous \<^verbatim>\<open>run\<close> comes first and a well-formed asynchronous one
  second; the first is validated and rejected. A class with no \<^verbatim>\<open>run\<close> is reported.
\<close>

theorem first_run_wins_witness:
  "check_run_method ''AFlow''
     ([Expr OtherExpr]
      @ FunctionDef ''run''
          \<lparr>posonlyargs = [], args = [], vararg = None, kwonlyargs = [], kwarg = None\<rparr> [] []
      # [AsyncFunctionDef ''run''
          \<lparr>posonlyargs = [], args = [''cls''], vararg = None,
           kwonlyargs = [''total_usage''], kwarg = None\<rparr> [] [Name ''classmethod'']])
     [''a_flow.py'']
   = fail (RunNotAsync [''a_flow.py''] ''AFlow'')
   \<and> check_run_method ''AFlow'' [Expr OtherExpr] [''a_flow.py'']
       = fail (RunMissing [''a_flow.py''] ''AFlow'')"
  using first_run_wins
    [of _ "[Expr OtherExpr]" "''AFlow''" "[''a_flow.py'']" "[Expr OtherExpr]"
        "FunctionDef ''run''
          \<lparr>posonlyargs = [], args = [], vararg = None, kwonlyargs = [], kwarg = None\<rparr> [] []"
        "[AsyncFunctionDef ''run''
          \<lparr>posonlyargs = [], args = [''cls''], vararg = None,
           kwonlyargs = [''total_usage''], kwarg = None\<rparr> [] [Name ''classmethod'']]"]
  by simp

section \<open>Properties of the entry-point check\<close>

lemma calls_main_iff: "calls_main nodes \<longleftrightarrow> (\<exists>node\<in>set nodes. invokes_main node)"
  by (induction nodes) auto

lemma invokes_main_iff:
  "invokes_main node \<longleftrightarrow>
     (\<exists>as. node = Expr (Call (Name ''main'') as))
     \<or> (\<exists>as rest. node = Expr (Call (Attribute (Name ''asyncio'') ''run'')
                                  (Call (Name ''main'') as # rest)))"
  by (auto simp: invokes_main_def split: stmt.splits expr.splits list.splits)

text \<open>
  C3, as the specification words it, fails: the only call at the end of this module is
  \<^verbatim>\<open>asyncio.run(main(), x)\<close>, whose sole positional argument is not a call of
  \<^verbatim>\<open>main\<close> since it has two, so no statement qualifies in the specification's sense;
  yet the check passes, because the source looks at element 0 of the arguments only.
\<close>

theorem sole_argument_counterexample:
  "\<not> list_ex qualifying_call_spec
       [AsyncFunctionDef ''main''
          \<lparr>posonlyargs = [], args = [], vararg = None, kwonlyargs = [], kwarg = None\<rparr> [] [],
        Expr (Call (Attribute (Name ''asyncio'') ''run'') [Call (Name ''main'') [], OtherExpr])]
   \<and> check_demo_tree [''demonstration'', ''main.py'']
       [AsyncFunctionDef ''main''
          \<lparr>posonlyargs = [], args = [], vararg = None, kwonlyargs = [], kwarg = None\<rparr> [] [],
        Expr (Call (Attribute (Name ''asyncio'') ''run'') [Call (Name ''main'') [], OtherExpr])]
     = print DemoMainOk"
  by (simp add: check_demo_tree_def has_arguments_def invokes_main_def)

text \<open>
  C3, amended. Once an asynchronous \<^verbatim>\<open>main\<close> without the parameters the validator
  looks for is found, the check passes exactly when some top-level statement of the
  module is an expression statement that is a call of the name \<^verbatim>\<open>main\<close>, or a call of
  \<^verbatim>\<open>asyncio.run\<close> whose first positional argument is a call of the name \<^verbatim>\<open>main\<close>
  (further positional arguments are not looked at). Scanning from the end finds such a
  statement whenever there is one. Otherwise the check reports that \<^verbatim>\<open>main\<close> is not
  called.
\<close>

theorem main_invocation_check:
  assumes "main_func body = Some a" and "\<not> has_arguments a"
  shows "(invokes_main node \<longleftrightarrow>
           (\<exists>as. node = Expr (Call (Name ''main'') as))
           \<or> (\<exists>as rest. node = Expr (Call (Attribute (Name ''asyncio'') ''run'')
                                        (Call (Name ''main'') as # rest))))
       \<and> (calls_main (rev body) \<longleftrightarrow> (\<exists>node\<in>set body. invokes_main node))
       \<and> ((\<exists>node\<in>set body. invokes_main node) \<longrightarrow> check_demo_tree p body = print DemoMainOk)
       \<and> (\<not> (\<exists>node\<in>set body. invokes_main node) \<longrightarrow>
            check_demo_tree p body = fail (MainNotCalled p))"
  using assms invokes_main_iff [of node] calls_main_iff [of "rev body"]
  by (simp add: check_demo_tree_def)

text \<open>
  Instances: a module that ends in \<^verbatim>\<open>asyncio.run(other())\<close> is reported; one whose
  \<^verbatim>\<open>asyncio.run(main())\<close> is followed by another statement passes.
\<close>

theorem main_invocation_check_witness:
  "check_demo_tree [''demonstration'', ''main.py'']
       [AsyncFunctionDef ''main''
          \<lparr>posonlyargs = [], args = [], vararg = None, kwonlyargs = [], kwarg = None\<rparr> [] [],
        Expr (Call (Attribute (Name ''asyncio'') ''run'') [Call (Name ''other'') []])]
     = fail (MainNotCalled [''demonstration'', ''main.py''])
   \<and> check_demo_tree [''demonstration'', ''main.py'']
       [AsyncFunctionDef ''main''
          \<lparr>posonlyargs = [], args = [], vararg = None, kwonlyargs = [], kwarg = None\<rparr> [] [],
        Expr (Call (Attribute (Name ''asyncio'') ''run'') [Call (Name ''main'') []]),
        OtherNode []]
     = print DemoMainOk"
  using main_invocation_check
    [of "[AsyncFunctionDef ''main''
          \<lparr>posonlyargs = [], args = [], vararg = None, kwonlyargs = [], kwarg = None\<rparr> [] [],
        Expr (Call (Attribute (Name ''asyncio'') ''run'') [Call (Name ''other'') []])]"
       "\<lparr>posonlyargs = [], args = [], vararg = None, kwonlyargs = [], kwarg = None\<rparr>"
       _ "[''demonstration'', ''main.py'']"]
   main_invocation_check
    [of "[AsyncFunctionDef ''main''
          \<lparr>posonlyargs = [], args = [], vararg = None, kwonlyargs = [], kwarg = None\<rparr> [] [],
        Expr (Call (Attribute (Name ''asyncio'') ''run'') [Call (Name ''main'') []]),
        OtherNode []]"
       "\<lparr>posonlyargs = [], args = [], vararg = None, kwonlyargs = [], kwarg = None\<rparr>"
       _ "[''demonstration'', ''main.py'']"]
  by (simp add: has_arguments_def invokes_main_def)

text \<open>
  C4. The source tests \<^verbatim>\<open>args\<close>, \<^verbatim>\<open>kwonlyargs\<close>, \<^verbatim>\<open>vararg\<close> and \<^verbatim>\<open>kwarg\<close> of
  \<^verbatim>\<open>main\<close> and never reads \<^verbatim>\<open>posonlyargs\<close>: when those four are empty and \<^verbatim>\<open>main\<close> is
  called, the check passes whatever the positional-only parameters are.
\<close>

theorem positional_only_parameters_unchecked:
  assumes "main_func body = Some a"
    and "args a = []" and "kwonlyargs a = []" and "vararg a = None" and "kwarg a = None"
    and "calls_main (rev body)"
  shows "check_demo_tree p body = print DemoMainOk"
  using assms by (simp add: check_demo_tree_def has_arguments_def)

text \<open>The failing input: \<^verbatim>\<open>async def main(x, /)\<close> followed by \<^verbatim>\<open>asyncio.run(main())\<close>.\<close>

theorem positional_only_parameters_unchecked_witness:
  "check_demo_tree [''demonstration'', ''main.py'']
       [AsyncFunctionDef ''main''
          \<lparr>posonlyargs = [''x''], args = [], vararg = None, kwonlyargs = [], kwarg = None\<rparr> [] [],
        Expr (Call (Attribute (Name ''asyncio'') ''run'') [Call (Name ''main'') []])]
     = print DemoMainOk"
  using positional_only_parameters_unchecked
    [of "[AsyncFunctionDef ''main''
          \<lparr>posonlyargs = [''x''], args = [], vararg = None, kwonlyargs = [], kwarg = None\<rparr> [] [],
        Expr (Call (Attribute (Name ''asyncio'') ''run'') [Call (Name ''main'') []])]"
      "\<lparr>posonlyargs = [''x''], args = [], vararg = None, kwonlyargs = [], kwarg = None\<rparr>"
      "[''demonstration'', ''main.py'']"]
  by (simp add: invokes_main_def)

section \<open>Sequences of checks\<close>

lemma then_run_simps:
  "then_run (ls, Returned) b = (ls @ fst b, snd b)"
  "then_run (ls, Exited n) b = (ls, Exited n)"
  "then_run (ls, Raised e) b = (ls, Raised e)"
  by (simp_all add: then_run_def)

lemma then_run_skip [simp]: "then_run skip b = b" "then_run a skip = a"
  by (cases a; simp add: then_run_def skip_def split: status.splits)+

lemma then_run_fail [simp]: "then_run (fail m) b = fail m"
  by (simp add: then_run_def fail_def)

lemma then_run_raise [simp]: "then_run (raise e) b = raise e"
  by (simp add: then_run_def raise_def)

lemma then_run_assoc: "then_run (then_run a b) c = then_run a (then_run b c)"
  by (cases a) (auto simp: then_run_def split: status.splits)

lemma seq_append: "seq (xs @ ys) = then_run (seq xs) (seq ys)"
  by (induction xs) (simp_all add: then_run_assoc)

lemma seq_Returned_iff: "snd (seq rs) = Returned \<longleftrightarrow> (\<forall>r\<in>set rs. snd r = Returned)"
  by (induction rs) (auto simp: then_run_def skip_def split: status.splits)

lemma seq_all_Returned:
  "\<forall>r\<in>set rs. snd r = Returned \<Longrightarrow> seq rs = (concat (map fst rs), Returned)"
  by (induction rs) (auto simp: then_run_def skip_def split: status.splits)

lemma seq_first_stop:
  "\<forall>r\<in>set pre. snd r = Returned \<Longrightarrow> snd r \<noteq> Returned \<Longrightarrow>
     seq (pre @ r # post) = (concat (map fst pre) @ fst r, snd r)"
  by (induction pre) (auto simp: then_run_def split: status.splits)



lemma check_import_name_cases:
  "check_import_name local msg full =
     (if full \<noteq> allowed_full_import \<and> top_module full \<in> local \<and> top_module full \<noteq> ''app''
      then fail msg else skip)"
  by (simp add: check_import_name_def)

lemma check_import_node_violations:
  "check_import_node local p node =
     (case import_violations local p node of [] \<Rightarrow> skip | v # vs \<Rightarrow> fail v)"
proof (cases node)
  case (Import names)
  have "seq (map (\<lambda>full. check_import_name local (LocalImport p full) full) names)
      = (case map (LocalImport p)
           (filter (\<lambda>full. full \<noteq> allowed_full_import
                  \<and> top_module full \<in> local \<and> top_module full \<noteq> ''app'') names)
         of [] \<Rightarrow> skip | v # vs \<Rightarrow> fail v)"
    by (induction names) (auto simp: check_import_name_cases)
  with Import show ?thesis by simp
next
  case (ImportFrom module level)
  then show ?thesis
    by (cases module) (auto simp: check_import_name_cases)
qed simp_all

lemma seq_first_violation:
  "seq (map (\<lambda>x. case vs x of [] \<Rightarrow> skip | v # rest \<Rightarrow> fail v) xs)
     = (case concat (map vs xs) of [] \<Rightarrow> skip | v # rest \<Rightarrow> fail v)"
proof (induction xs)
  case Nil
  show ?case by simp
next
  case (Cons x xs)
  then show ?case by (cases "vs x") simp_all
qed

lemma check_app_file_violations:
  assumes "parse_file (fst f) (snd f) = Inr body"
  shows "check_app_file local f =
     (case concat (map (import_violations local (fst f)) (walk body)) of
        [] \<Rightarrow> skip | v # rest \<Rightarrow> fail v)"
  using assms seq_first_violation [of "import_violations local (fst f)" "walk body"]
  by (simp add: check_app_file_def check_import_node_violations [abs_def])

section \<open>Properties of the import scan\<close>





lemma scan_files:
  assumes "list_all2 (\<lambda>f t. fst t = fst f \<and> parse_file (fst f) (snd f) = Inr (snd t)) files trees"
  shows "seq (map (check_app_file local) files)
     = (case scanPackageImports_spec local trees of [] \<Rightarrow> skip | v # vs \<Rightarrow> fail v)"
  using assms
proof (induction rule: list_all2_induct)
  case Nil
  show ?case by (simp add: scanPackageImports_spec_def)
next
  case (Cons f files t trees)
  let ?v = "concat (map (import_violations local (fst t)) (walk (snd t)))"
  have f: "check_app_file local f = (case ?v of [] \<Rightarrow> skip | v # rest \<Rightarrow> fail v)"
    using Cons.hyps check_app_file_violations [of f "snd t" local] by simp
  have u: "scanPackageImports_spec local (t # trees) = ?v @ scanPackageImports_spec local trees"
    by (simp add: scanPackageImports_spec_def)
  show ?case
  proof (cases ?v)
    case Nil
    with f have "check_app_file local f = skip" by simp
    with Cons.IH show ?thesis unfolding u Nil by simp
  next
    case (Cons v rest)
    with f have "check_app_file local f = fail v" by simp
    then show ?thesis unfolding u Cons by simp
  qed
qed

text \<open>
  C5, as the specification words it, fails: two files of \<^verbatim>\<open>app\<close> hold one violation
  each, so the sequence of the contract has two elements, but the run prints the first
  one only and exits with code 1.
\<close>

theorem import_scan_counterexample:
  "scanPackageImports_spec
     (local_modules
        [(''app'', Dir [(''a.py'', File \<lparr>read_text = [], ast_parse = Some [Import [''eksmo_src.other'']]\<rparr>),
                        (''b.py'', File \<lparr>read_text = [],
                                     ast_parse = Some [ImportFrom (Some ''demonstration.util'') 0]\<rparr>)]),
         (''demonstration'', Dir []), (''eksmo_src'', Dir [])])
     [([''proj'', ''app'', ''a.py''], [Import [''eksmo_src.other'']]),
      ([''proj'', ''app'', ''b.py''], [ImportFrom (Some ''demonstration.util'') 0])]
   = [LocalImport [''proj'', ''app'', ''a.py''] ''eksmo_src.other'',
      LocalImportFrom [''proj'', ''app'', ''b.py''] ''demonstration.util'']
   \<and> check_app_imports
       \<lparr>project_root = [''proj''],
        entries =
          [(''app'', Dir [(''a.py'', File \<lparr>read_text = [], ast_parse = Some [Import [''eksmo_src.other'']]\<rparr>),
                          (''b.py'', File \<lparr>read_text = [],
                                       ast_parse = Some [ImportFrom (Some ''demonstration.util'') 0]\<rparr>)]),
           (''demonstration'', Dir []), (''eksmo_src'', Dir [])]\<rparr>
     = ([Cross (LocalImport [''proj'', ''app'', ''a.py''] ''eksmo_src.other'')], Exited 1)"
  by (simp add: scanPackageImports_spec_def check_app_imports_def rglob_def abspath_def
      endswith_def check_app_file_def check_import_name_def allowed_full_import_def
      top_module_def fail_def then_run_def skip_def)

lemma files_Returned_parse:
  "\<forall>f\<in>set files. snd (check_app_file local f) = Returned \<Longrightarrow>
     \<exists>trees. list_all2 (\<lambda>f t. fst t = fst f \<and> parse_file (fst f) (snd f) = Inr (snd t)) files trees"
proof (induction files)
  case Nil
  show ?case by simp
next
  case (Cons f files)
  then obtain trees
    where t: "list_all2 (\<lambda>f t. fst t = fst f \<and> parse_file (fst f) (snd f) = Inr (snd t)) files trees"
    by auto
  from Cons.prems have "snd (check_app_file local f) = Returned" by simp
  then obtain body where "parse_file (fst f) (snd f) = Inr body"
    by (cases "parse_file (fst f) (snd f)") (auto simp: check_app_file_def raise_def)
  with t have "list_all2 (\<lambda>f t. fst t = fst f \<and> parse_file (fst f) (snd f) = Inr (snd t))
      (f # files) ((fst f, body) # trees)"
    by simp
  then show ?case by blast
qed

text \<open>
  C5, amended. Let the files the scan visits be \<open>scanned\<close> followed by \<open>later\<close>, where
  every file of \<open>scanned\<close> parses; nothing is asked of \<open>later\<close>. If the contract's
  sequence for \<open>scanned\<close> is not empty, the scan reports its first element and nothing
  else, and the run ends there: no later import and no file of \<open>later\<close> is looked at,
  whether it would parse or not. If that sequence is empty and \<open>later\<close> is empty, the
  scan passes. The scan passes exactly when all files of the subtree parse and the
  contract's sequence for them is empty.
\<close>

theorem import_scan_stops_at_first_violation:
  assumes "rglob (\<lambda>n. endswith n ''.py'') pr [''app''] = scanned @ later"
    and "list_all2 (\<lambda>f t. fst t = fst f \<and> parse_file (fst f) (snd f) = Inr (snd t)) scanned trees"
  shows "(\<forall>v vs. scanPackageImports_spec (local_modules (entries pr)) trees = v # vs \<longrightarrow>
            check_app_imports pr = fail v)
       \<and> (scanPackageImports_spec (local_modules (entries pr)) trees = [] \<and> later = [] \<longrightarrow>
            check_app_imports pr = print AppImportsOk)
       \<and> (snd (check_app_imports pr) = Returned \<longleftrightarrow>
            (\<exists>all_trees.
               list_all2 (\<lambda>f t. fst t = fst f \<and> parse_file (fst f) (snd f) = Inr (snd t))
                 (rglob (\<lambda>n. endswith n ''.py'') pr [''app'']) all_trees
               \<and> scanPackageImports_spec (local_modules (entries pr)) all_trees = []))"
proof -
  let ?local = "local_modules (entries pr)"
  let ?files = "rglob (\<lambda>n. endswith n ''.py'') pr [''app'']"
  let ?P = "\<lambda>f t. fst t = fst f \<and> parse_file (fst f) (snd f) = Inr (snd t)"
  have pre: "seq (map (check_app_file ?local) scanned)
      = (case scanPackageImports_spec ?local trees of [] \<Rightarrow> skip | v # vs \<Rightarrow> fail v)"
    using assms(2) by (rule scan_files)
  have whole: "seq (map (check_app_file ?local) ?files)
      = then_run (seq (map (check_app_file ?local) scanned)) (seq (map (check_app_file ?local) later))"
    unfolding assms(1) by (simp add: seq_append)
  have 1: "\<forall>v vs. scanPackageImports_spec ?local trees = v # vs \<longrightarrow> check_app_imports pr = fail v"
  proof (intro allI impI)
    fix v vs
    assume "scanPackageImports_spec ?local trees = v # vs"
    with pre have "seq (map (check_app_file ?local) scanned) = fail v" by simp
    with whole have "seq (map (check_app_file ?local) ?files) = fail v" by simp
    then show "check_app_imports pr = fail v" by (simp add: check_app_imports_def)
  qed
  have 2: "scanPackageImports_spec ?local trees = [] \<and> later = [] \<longrightarrow>
            check_app_imports pr = print AppImportsOk"
  proof
    assume a: "scanPackageImports_spec ?local trees = [] \<and> later = []"
    with pre have "seq (map (check_app_file ?local) scanned) = skip" by simp
    with whole a have "seq (map (check_app_file ?local) ?files) = skip" by simp
    then show "check_app_imports pr = print AppImportsOk" by (simp add: check_app_imports_def)
  qed
  have 3: "snd (check_app_imports pr) = Returned \<longleftrightarrow>
            (\<exists>all_trees. list_all2 ?P ?files all_trees
               \<and> scanPackageImports_spec ?local all_trees = [])"
  proof
    assume r: "snd (check_app_imports pr) = Returned"
    have "check_app_imports pr
        = then_run (seq (map (check_app_file ?local) ?files)) (print AppImportsOk)"
      by (simp add: check_app_imports_def)
    with r have s: "snd (seq (map (check_app_file ?local) ?files)) = Returned"
      by (auto simp: then_run_def split: status.splits)
    then have "\<forall>f\<in>set ?files. snd (check_app_file ?local f) = Returned"
      unfolding seq_Returned_iff by simp
    from files_Returned_parse [OF this] obtain all_trees where t: "list_all2 ?P ?files all_trees"
      by blast
    from scan_files [OF t, of ?local] s
    have "scanPackageImports_spec ?local all_trees = []"
      by (cases "scanPackageImports_spec ?local all_trees") (auto simp: fail_def)
    with t show "\<exists>all_trees. list_all2 ?P ?files all_trees
               \<and> scanPackageImports_spec ?local all_trees = []" by blast
  next
    assume "\<exists>all_trees. list_all2 ?P ?files all_trees
               \<and> scanPackageImports_spec ?local all_trees = []"
    then obtain all_trees where t: "list_all2 ?P ?files all_trees"
      and e: "scanPackageImports_spec ?local all_trees = []" by blast
    from scan_files [OF t, of ?local] e
    have "seq (map (check_app_file ?local) ?files) = skip" by simp
    then show "snd (check_app_imports pr) = Returned"
      by (simp add: check_app_imports_def print_def)
  qed
  from 1 2 3 show ?thesis by (intro conjI)
qed

text \<open>
  An instance: \<^verbatim>\<open>a.py\<close> holds a violation and \<^verbatim>\<open>b.py\<close>, which comes after it, does not
  parse; the run ends with the violation of \<^verbatim>\<open>a.py\<close> and \<^verbatim>\<open>b.py\<close> is never read.
\<close>

theorem import_scan_stops_at_first_violation_witness:
  "check_app_imports
       \<lparr>project_root = [''proj''],
        entries =
          [(''app'', Dir [(''a.py'', File \<lparr>read_text = [], ast_parse = Some [Import [''eksmo_src.other'']]\<rparr>),
                          (''b.py'', File \<lparr>read_text = [], ast_parse = None\<rparr>)]),
           (''demonstration'', Dir []), (''eksmo_src'', Dir [])]\<rparr>
     = fail (LocalImport [''proj'', ''app'', ''a.py''] ''eksmo_src.other'')"
proof -
  let ?pr = "\<lparr>project_root = [''proj''],
        entries =
          [(''app'', Dir [(''a.py'', File \<lparr>read_text = [], ast_parse = Some [Import [''eksmo_src.other'']]\<rparr>),
                          (''b.py'', File \<lparr>read_text = [], ast_parse = None\<rparr>)]),
           (''demonstration'', Dir []), (''eksmo_src'', Dir [])]\<rparr>"
  let ?a = "([''proj'', ''app'', ''a.py''],
      File \<lparr>read_text = [], ast_parse = Some [Import [''eksmo_src.other'']]\<rparr>)"
  let ?b = "([''proj'', ''app'', ''b.py''], File \<lparr>read_text = [], ast_parse = None\<rparr>)"
  have files: "rglob (\<lambda>n. endswith n ''.py'') ?pr [''app''] = [?a] @ [?b]"
    by (simp add: rglob_def abspath_def endswith_def)
  have parsed: "list_all2 (\<lambda>f t. fst t = fst f \<and> parse_file (fst f) (snd f) = Inr (snd t))
      [?a] [([''proj'', ''app'', ''a.py''], [Import [''eksmo_src.other'']])]"
    by simp
  have found: "scanPackageImports_spec (local_modules (entries ?pr))
      [([''proj'', ''app'', ''a.py''], [Import [''eksmo_src.other'']])]
      = [LocalImport [''proj'', ''app'', ''a.py''] ''eksmo_src.other'']"
    by (simp add: scanPackageImports_spec_def allowed_full_import_def top_module_def)
  from import_scan_stops_at_first_violation [OF files parsed, THEN conjunct1, rule_format, OF found]
  show ?thesis .
qed

section \<open>Properties of the local-module set\<close>

lemma rfind_dot_append:
  assumes "CHR ''.'' \<notin> set ext"
  shows "rfind_dot (stem @ CHR ''.'' # ext) = int (length stem)"
proof -
  have "dropWhile (\<lambda>c. c \<noteq> CHR ''.'') (rev ext @ CHR ''.'' # rev stem) = CHR ''.'' # rev stem"
    using assms by (subst dropWhile_append2) auto
  then show ?thesis by (simp add: rfind_dot_def)
qed

lemma path_suffix_py_iff: "path_suffix n = ''.py'' \<longleftrightarrow> (\<exists>stem. stem \<noteq> [] \<and> n = stem @ ''.py'')"
proof
  assume a: "path_suffix n = ''.py''"
  then have c: "0 < rfind_dot n" "drop (nat (rfind_dot n)) n = ''.py''"
    by (auto simp: path_suffix_def split: if_splits)
  then have "n = take (nat (rfind_dot n)) n @ ''.py''"
    by (metis append_take_drop_id)
  moreover have "take (nat (rfind_dot n)) n \<noteq> []"
    using c a by (auto simp: path_suffix_def)
  ultimately show "\<exists>stem. stem \<noteq> [] \<and> n = stem @ ''.py''" by blast
next
  assume "\<exists>stem. stem \<noteq> [] \<and> n = stem @ ''.py''"
  then obtain stem where s: "stem \<noteq> []" "n = stem @ CHR ''.'' # ''py''" by auto
  have "rfind_dot n = int (length stem)"
    unfolding s(2) by (rule rfind_dot_append) simp
  with s show "path_suffix n = ''.py''" by (simp add: path_suffix_def)
qed

lemma path_stem_py: "path_stem (stem @ ''.py'') = (if stem = [] then ''.py'' else stem)"
proof -
  have "rfind_dot (stem @ CHR ''.'' # ''py'') = int (length stem)"
    by (rule rfind_dot_append) simp
  then show ?thesis by (simp add: path_stem_def)
qed

lemma local_modules_eq:
  "local_modules es =
     {n. \<exists>x. (n, x) \<in> set es \<and> n \<noteq> ''app'' \<and> is_Dir x}
     \<union> {path_stem n | n x. (n, x) \<in> set es \<and> n \<noteq> ''app'' \<and> is_File x \<and> path_suffix n = ''.py''}"
  by (induction es rule: local_modules.induct) auto

lemma local_modules_spec_eq:
  "local_modules_spec es =
     ({n. \<exists>x. (n, x) \<in> set es \<and> is_Dir x}
      \<union> {path_stem n | n x. (n, x) \<in> set es \<and> is_File x \<and> path_suffix n = ''.py''})
     - {''app''}"
  unfolding local_modules_spec_def by force

lemma app_in_local_modules:
  "''app'' \<in> local_modules es \<longleftrightarrow> (\<exists>x. (''app.py'', x) \<in> set es \<and> is_File x)"
proof
  assume "''app'' \<in> local_modules es"
  then obtain n x where n: "''app'' = path_stem n" "(n, x) \<in> set es" "is_File x"
    "path_suffix n = ''.py''"
    unfolding local_modules_eq by auto
  from n(4) obtain stem where s: "stem \<noteq> []" "n = stem @ ''.py''"
    unfolding path_suffix_py_iff by blast
  have "path_stem (stem @ ''.py'') = stem"
    using s(1) by (simp only: path_stem_py if_False)
  then have "path_stem n = stem" unfolding s(2) .
  with n(1) have "stem = ''app''" by metis
  then have "n = ''app.py''" unfolding s(2) by (simp only: append.simps)
  with n(2,3) show "\<exists>x. (''app.py'', x) \<in> set es \<and> is_File x" by blast
next
  assume "\<exists>x. (''app.py'', x) \<in> set es \<and> is_File x"
  then obtain x where x: "(''app.py'', x) \<in> set es" "is_File x" by blast
  have "path_suffix ''app.py'' = ''.py''"
    unfolding path_suffix_py_iff by (intro exI [of _ "''app''"]) simp
  moreover have "path_stem ''app.py'' = ''app''"
    using path_stem_py [of "''app''"] by simp
  ultimately show "''app'' \<in> local_modules es"
    unfolding local_modules_eq using x by force
qed

text \<open>
  C8, as the specification words it, fails: the project root holds the directory
  \<^verbatim>\<open>app\<close> and a regular file \<^verbatim>\<open>app.py\<close>. The source passes over the entry named
  \<^verbatim>\<open>app\<close> only, so the stem of \<^verbatim>\<open>app.py\<close> enters the set, and the set computed holds the
  name \<^verbatim>\<open>app\<close>, which the specification's set leaves out.
\<close>

theorem local_module_set_counterexample:
  "local_modules [(''app'', Dir []), (''app.py'', File \<lparr>read_text = [], ast_parse = Some []\<rparr>)]
     = {''app''}
   \<and> local_modules_spec
       [(''app'', Dir []), (''app.py'', File \<lparr>read_text = [], ast_parse = Some []\<rparr>)] = {}"
proof -
  have a: "local_modules [(''app'', Dir []), (''app.py'', File \<lparr>read_text = [], ast_parse = Some []\<rparr>)]
     = {''app''}"
    by (simp add: path_suffix_def path_stem_def rfind_dot_def)
  have b: "local_modules_spec
       [(''app'', Dir []), (''app.py'', File \<lparr>read_text = [], ast_parse = Some []\<rparr>)] = {}"
    by (simp add: local_modules_spec_def path_suffix_def path_stem_def rfind_dot_def)
  from a b show ?thesis by (rule conjI)
qed

text \<open>
  C8, amended. The set computed from the listing \<open>es\<close> of the project root holds the
  name of every directory and the stem of every regular file with the suffix \<^verbatim>\<open>.py\<close>,
  the entry named \<^verbatim>\<open>app\<close> being passed over. A name has that suffix exactly when it is a
  non-empty stem followed by \<^verbatim>\<open>.py\<close>, and the stem is what stands before. Apart from the
  name \<^verbatim>\<open>app\<close> the set is the specification's set, and \<^verbatim>\<open>app\<close> is in it exactly when
  the root holds a regular file \<^verbatim>\<open>app.py\<close>. The import check tests membership together
  with the segment not being \<^verbatim>\<open>app\<close>, which is membership in the specification's set, so
  an import whose first segment is \<^verbatim>\<open>app\<close> is never reported.
\<close>

theorem local_module_set:
  "local_modules es =
     {n. \<exists>x. (n, x) \<in> set es \<and> n \<noteq> ''app'' \<and> is_Dir x}
     \<union> {path_stem n | n x. (n, x) \<in> set es \<and> n \<noteq> ''app'' \<and> is_File x \<and> path_suffix n = ''.py''}
   \<and> (path_suffix n = ''.py'' \<longleftrightarrow> (\<exists>stem. stem \<noteq> [] \<and> n = stem @ ''.py''))
   \<and> (stem \<noteq> [] \<longrightarrow> path_stem (stem @ ''.py'') = stem)
   \<and> local_modules es - {''app''}
       = ({n. \<exists>x. (n, x) \<in> set es \<and> is_Dir x}
          \<union> {path_stem n | n x. (n, x) \<in> set es \<and> is_File x \<and> path_suffix n = ''.py''})
         - {''app''}
   \<and> local_modules es - {''app''} = local_modules_spec es
   \<and> (''app'' \<in> local_modules es \<longleftrightarrow> (\<exists>x. (''app.py'', x) \<in> set es \<and> is_File x))
   \<and> (seg \<in> local_modules es \<and> seg \<noteq> ''app'' \<longleftrightarrow> seg \<in> local_modules_spec es)
   \<and> (top_module full = ''app'' \<longrightarrow> check_import_name (local_modules es) msg full = skip)"
proof -
  have "path_suffix ''app'' \<noteq> ''.py''" by (simp add: path_suffix_py_iff)
  then have 1: "local_modules es - {''app''}
       = ({n. \<exists>x. (n, x) \<in> set es \<and> is_Dir x}
          \<union> {path_stem n | n x. (n, x) \<in> set es \<and> is_File x \<and> path_suffix n = ''.py''})
         - {''app''}"
    unfolding local_modules_eq by auto
  then have 2: "local_modules es - {''app''} = local_modules_spec es"
    by (simp add: local_modules_spec_eq)
  then have 3: "seg \<in> local_modules es \<and> seg \<noteq> ''app'' \<longleftrightarrow> seg \<in> local_modules_spec es"
    by auto
  have 4: "top_module full = ''app'' \<longrightarrow> check_import_name (local_modules es) msg full = skip"
    by (simp add: check_import_name_def)
  have 5: "stem \<noteq> [] \<longrightarrow> path_stem (stem @ ''.py'') = stem"
    by (simp add: path_stem_py)
  from local_modules_eq [of es] path_suffix_py_iff [of n] 5 1 2 app_in_local_modules [of es] 3 4
  show ?thesis by (intro conjI)
qed

text \<open>
  An instance: the directory \<^verbatim>\<open>app\<close> is left out, the other two directories and the
  stem of \<^verbatim>\<open>setup.py\<close> are in, \<^verbatim>\<open>README.md\<close> adds nothing, and an import of
  \<^verbatim>\<open>app.consts\<close> passes.
\<close>

theorem local_module_set_witness:
  "local_modules
     [(''app'', Dir []), (''demonstration'', Dir []), (''eksmo_src'', Dir []),
      (''setup.py'', File \<lparr>read_text = [], ast_parse = Some []\<rparr>),
      (''README.md'', File \<lparr>read_text = [], ast_parse = None\<rparr>)]
   = {''demonstration'', ''eksmo_src'', ''setup''}
   \<and> check_import_name
       (local_modules
          [(''app'', Dir []), (''demonstration'', Dir []), (''eksmo_src'', Dir []),
           (''setup.py'', File \<lparr>read_text = [], ast_parse = Some []\<rparr>),
           (''README.md'', File \<lparr>read_text = [], ast_parse = None\<rparr>)])
       (LocalImport [''app'', ''x.py''] ''app.consts'') ''app.consts'' = skip"
proof -
  have a: "local_modules
     [(''app'', Dir []), (''demonstration'', Dir []), (''eksmo_src'', Dir []),
      (''setup.py'', File \<lparr>read_text = [], ast_parse = Some []\<rparr>),
      (''README.md'', File \<lparr>read_text = [], ast_parse = None\<rparr>)]
   = {''demonstration'', ''eksmo_src'', ''setup''}"
    by (simp add: path_suffix_def path_stem_def rfind_dot_def insert_commute)
  have "top_module ''app.consts'' = ''app'' \<longrightarrow>
      check_import_name
       (local_modules
          [(''app'', Dir []), (''demonstration'', Dir []), (''eksmo_src'', Dir []),
           (''setup.py'', File \<lparr>read_text = [], ast_parse = Some []\<rparr>),
           (''README.md'', File \<lparr>read_text = [], ast_parse = None\<rparr>)])
       (LocalImport [''app'', ''x.py''] ''app.consts'') ''app.consts'' = skip"
    by (rule local_module_set [THEN conjunct2, THEN conjunct2, THEN conjunct2, THEN conjunct2,
          THEN conjunct2, THEN conjunct2, THEN conjunct2])
  then have b: "check_import_name
       (local_modules
          [(''app'', Dir []), (''demonstration'', Dir []), (''eksmo_src'', Dir []),
           (''setup.py'', File \<lparr>read_text = [], ast_parse = Some []\<rparr>),
           (''README.md'', File \<lparr>read_text = [], ast_parse = None\<rparr>)])
       (LocalImport [''app'', ''x.py''] ''app.consts'') ''app.consts'' = skip"
    by (simp add: top_module_def)
  from a b show ?thesis by (rule conjI)
qed

section \<open>Properties of the line-count check\<close>

lemma seq_filter_skip:
  "seq (map (\<lambda>x. if P x then skip else g x) xs) = seq (map g (filter (\<lambda>x. \<not> P x) xs))"
  by (induction xs) simp_all

lemma rglob_dirs_mono:
  "(n, y) \<in> set es \<Longrightarrow> set (rglob_node m (p @ [n]) y) \<subseteq> set (rglob_dirs m p es)"
  by (induction es) auto

lemma rglob_node_complete:
  "lookup es rel = Some x \<Longrightarrow> rel \<noteq> [] \<Longrightarrow> m (last rel) \<Longrightarrow>
     (base @ rel, x) \<in> set (rglob_node m base (Dir es))"
proof (induction rel arbitrary: es base)
  case Nil
  then show ?case by simp
next
  case (Cons c cs)
  from Cons.prems(1) obtain y where y: "map_of es c = Some y"
    by (auto split: option.splits)
  then have mem: "(c, y) \<in> set es" by (rule map_of_SomeD)
  show ?case
  proof (cases "cs = []")
    case True
    with Cons.prems y have "x = y" "m c"
      by (auto split: fsnode.splits)
    with mem True show ?thesis by force
  next
    case False
    with Cons.prems(1) y obtain es' where es': "y = Dir es'" "lookup es' cs = Some x"
      by (auto split: fsnode.splits if_splits)
    from False Cons.prems(3) have "m (last cs)" by simp
    from Cons.IH [OF es'(2) False this, of "base @ [c]"]
    have "(base @ c # cs, x) \<in> set (rglob_node m (base @ [c]) y)"
      using es'(1) by simp
    with rglob_dirs_mono [OF mem, of m base] show ?thesis by auto
  qed
qed

lemma check_file_length_Returned:
  "snd (check_file_length (p, File d) max_lines) = Returned
     \<longleftrightarrow> length (splitlines (read_text d)) \<le> max_lines"
  by (auto simp: check_file_length_def fail_def skip_def)

lemma splitlines_line_feeds: "splitlines (replicate n 10) = replicate n []"
proof -
  have "split_from [] (replicate n 10) = replicate n []"
    by (induction n) (simp_all add: line_boundary_def)
  then show ?thesis by (simp add: splitlines_def)
qed

text \<open>
  C10. The check runs the 1000-line test on the paths that \<^verbatim>\<open>rglob("*.py")\<close> yields under
  the project root, leaving out every path that has \<^verbatim>\<open>venv\<close> or \<^verbatim>\<open>env\<close> among its
  parts: its outcome is that of the test run over the remaining paths alone, so the
  length of a file left out never matters. Every entry of the tree, at any depth, whose
  name ends in \<^verbatim>\<open>.py\<close> is among the paths yielded. The test on one file fails with the
  file's line count exactly when that count exceeds 1000. When all paths yielded are
  regular files, the check returns exactly when every file not left out has at most 1000
  lines. The parts are those of the absolute path, the project root's own included.
\<close>

theorem line_count_ceiling:
  "check_all_python_files_length 1000 pr
     = seq (map (\<lambda>f. check_file_length f 1000)
          (filter (\<lambda>f. \<not> (''venv'' \<in> set (fst f) \<or> ''env'' \<in> set (fst f)))
             (rglob (\<lambda>n. endswith n ''.py'') pr [])))
   \<and> (lookup (entries pr) rel = Some x \<and> rel \<noteq> [] \<and> endswith (last rel) ''.py'' \<longrightarrow>
        (abspath pr rel, x) \<in> set (rglob (\<lambda>n. endswith n ''.py'') pr []))
   \<and> check_file_length (p, File d) 1000
        = (if length (splitlines (read_text d)) > 1000
           then fail (FileTooLong p (length (splitlines (read_text d))) 1000) else skip)
   \<and> ((\<forall>f\<in>set (rglob (\<lambda>n. endswith n ''.py'') pr []). is_File (snd f)) \<longrightarrow>
        (snd (check_all_python_files_length 1000 pr) = Returned \<longleftrightarrow>
           (\<forall>q e. (q, File e) \<in> set (rglob (\<lambda>n. endswith n ''.py'') pr [])
                  \<and> ''venv'' \<notin> set q \<and> ''env'' \<notin> set q
              \<longrightarrow> length (splitlines (read_text e)) \<le> 1000)))"
proof -
  let ?files = "rglob (\<lambda>n. endswith n ''.py'') pr []"
  have 1: "check_all_python_files_length 1000 pr
     = seq (map (\<lambda>f. check_file_length f 1000)
          (filter (\<lambda>f. \<not> (''venv'' \<in> set (fst f) \<or> ''env'' \<in> set (fst f))) ?files))"
    unfolding check_all_python_files_length_def by (rule seq_filter_skip)
  have 2: "lookup (entries pr) rel = Some x \<and> rel \<noteq> [] \<and> endswith (last rel) ''.py'' \<longrightarrow>
        (abspath pr rel, x) \<in> set ?files"
    using rglob_node_complete [of "entries pr" rel x "\<lambda>n. endswith n ''.py''" "project_root pr"]
    by (auto simp: rglob_def abspath_def)
  have 3: "check_file_length (p, File d) 1000
        = (if length (splitlines (read_text d)) > 1000
           then fail (FileTooLong p (length (splitlines (read_text d))) 1000) else skip)"
    by (simp add: check_file_length_def)
  have 4: "(\<forall>f\<in>set ?files. is_File (snd f)) \<longrightarrow>
        (snd (check_all_python_files_length 1000 pr) = Returned \<longleftrightarrow>
           (\<forall>q e. (q, File e) \<in> set ?files \<and> ''venv'' \<notin> set q \<and> ''env'' \<notin> set q
              \<longrightarrow> length (splitlines (read_text e)) \<le> 1000))"
  proof
    assume files: "\<forall>f\<in>set ?files. is_File (snd f)"
    have "snd (check_all_python_files_length 1000 pr) = Returned \<longleftrightarrow>
        (\<forall>f\<in>set ?files. \<not> (''venv'' \<in> set (fst f) \<or> ''env'' \<in> set (fst f)) \<longrightarrow>
           snd (check_file_length f 1000) = Returned)"
      unfolding 1 by (auto simp: seq_Returned_iff)
    also have "\<dots> \<longleftrightarrow> (\<forall>q e. (q, File e) \<in> set ?files \<and> ''venv'' \<notin> set q \<and> ''env'' \<notin> set q
              \<longrightarrow> length (splitlines (read_text e)) \<le> 1000)"
    proof
      assume l: "\<forall>f\<in>set ?files. \<not> (''venv'' \<in> set (fst f) \<or> ''env'' \<in> set (fst f)) \<longrightarrow>
           snd (check_file_length f 1000) = Returned"
      show "\<forall>q e. (q, File e) \<in> set ?files \<and> ''venv'' \<notin> set q \<and> ''env'' \<notin> set q
              \<longrightarrow> length (splitlines (read_text e)) \<le> 1000"
      proof (intro allI impI)
        fix q e
        assume "(q, File e) \<in> set ?files \<and> ''venv'' \<notin> set q \<and> ''env'' \<notin> set q"
        with l have "snd (check_file_length (q, File e) 1000) = Returned" by force
        then show "length (splitlines (read_text e)) \<le> 1000"
          by (simp add: check_file_length_Returned)
      qed
    next
      assume r: "\<forall>q e. (q, File e) \<in> set ?files \<and> ''venv'' \<notin> set q \<and> ''env'' \<notin> set q
              \<longrightarrow> length (splitlines (read_text e)) \<le> 1000"
      show "\<forall>f\<in>set ?files. \<not> (''venv'' \<in> set (fst f) \<or> ''env'' \<in> set (fst f)) \<longrightarrow>
           snd (check_file_length f 1000) = Returned"
      proof (intro ballI impI)
        fix f
        assume f: "f \<in> set ?files" "\<not> (''venv'' \<in> set (fst f) \<or> ''env'' \<in> set (fst f))"
        with files obtain q e where qe: "f = (q, File e)"
          by (cases f; cases "snd f") auto
        with f r have "length (splitlines (read_text e)) \<le> 1000" by auto
        with qe show "snd (check_file_length f 1000) = Returned"
          by (simp add: check_file_length_Returned)
      qed
    qed
    finally show "snd (check_all_python_files_length 1000 pr) = Returned \<longleftrightarrow>
           (\<forall>q e. (q, File e) \<in> set ?files \<and> ''venv'' \<notin> set q \<and> ''env'' \<notin> set q
              \<longrightarrow> length (splitlines (read_text e)) \<le> 1000)" .
  qed
  from 1 2 3 4 show ?thesis by (intro conjI)
qed

text \<open>
  Instances: a file of 1001 lines below \<^verbatim>\<open>venv\<close> does no harm, the same file below
  \<^verbatim>\<open>src\<close> is reported with its line count, and a file of 1000 lines passes.
\<close>

theorem line_count_ceiling_witness:
  "check_all_python_files_length 1000
     \<lparr>project_root = [''proj''],
      entries = [(''venv'', Dir [(''big.py'', File \<lparr>read_text = replicate 1001 10, ast_parse = None\<rparr>)]),
                 (''ok.py'', File \<lparr>read_text = replicate 1000 10, ast_parse = None\<rparr>)]\<rparr>
   = skip
   \<and> check_all_python_files_length 1000
     \<lparr>project_root = [''proj''],
      entries = [(''src'', Dir [(''big.py'', File \<lparr>read_text = replicate 1001 10, ast_parse = None\<rparr>)]),
                 (''ok.py'', File \<lparr>read_text = replicate 1000 10, ast_parse = None\<rparr>)]\<rparr>
   = fail (FileTooLong [''proj'', ''src'', ''big.py''] 1001 1000)"
proof -
  have a: "check_all_python_files_length 1000
     \<lparr>project_root = [''proj''],
      entries = [(''venv'', Dir [(''big.py'', File \<lparr>read_text = replicate 1001 10, ast_parse = None\<rparr>)]),
                 (''ok.py'', File \<lparr>read_text = replicate 1000 10, ast_parse = None\<rparr>)]\<rparr>
   = skip"
    unfolding line_count_ceiling [THEN conjunct1]
    by (simp add: rglob_def abspath_def endswith_def check_file_length_def splitlines_line_feeds)
  have b: "check_all_python_files_length 1000
     \<lparr>project_root = [''proj''],
      entries = [(''src'', Dir [(''big.py'', File \<lparr>read_text = replicate 1001 10, ast_parse = None\<rparr>)]),
                 (''ok.py'', File \<lparr>read_text = replicate 1000 10, ast_parse = None\<rparr>)]\<rparr>
   = fail (FileTooLong [''proj'', ''src'', ''big.py''] 1001 1000)"
    unfolding line_count_ceiling [THEN conjunct1]
    by (simp add: rglob_def abspath_def endswith_def check_file_length_def splitlines_line_feeds)
  from a b show ?thesis by (rule conjI)
qed

section \<open>Properties of the whole run\<close>

lemma tidy_then_run: "tidy a \<Longrightarrow> tidy b \<Longrightarrow> tidy (then_run a b)"
  by (cases a; cases b)
     (auto simp: tidy_def then_run_def list_ex_iff butlast_append split: status.splits)

lemma tidy_seq: "(\<And>r. r \<in> set rs \<Longrightarrow> tidy r) \<Longrightarrow> tidy (seq rs)"
proof (induction rs)
  case Nil
  show ?case by (simp add: tidy_def skip_def)
next
  case (Cons a rs)
  then show ?case by (simp add: tidy_then_run)
qed

lemma tidy_print: "\<not> is_cross l \<Longrightarrow> tidy (print l)"
  by (simp add: tidy_def print_def)

lemma orderly_skip [simp]: "orderly skip"
  by (simp add: orderly_def tidy_def skip_def)

lemma orderly_fail [simp]: "orderly (fail m)"
  by (simp add: orderly_def tidy_def fail_def)

lemma orderly_raise [simp]: "orderly (raise e)"
  by (simp add: orderly_def tidy_def raise_def)

lemma orderly_print: "l \<noteq> AllPassed \<Longrightarrow> \<not> is_cross l \<Longrightarrow> orderly (print l)"
  by (simp add: orderly_def tidy_def print_def)

lemma orderly_then_run: "orderly a \<Longrightarrow> orderly b \<Longrightarrow> orderly (then_run a b)"
  unfolding orderly_def
  by (auto simp: tidy_then_run) (auto simp: then_run_def split: status.splits)

lemma orderly_seq: "(\<And>r. r \<in> set rs \<Longrightarrow> orderly r) \<Longrightarrow> orderly (seq rs)"
  by (induction rs) (simp_all add: orderly_then_run)

lemma orderly_seq_map: "(\<And>x. orderly (f x)) \<Longrightarrow> orderly (seq (map f xs))"
  by (rule orderly_seq) auto

lemma orderly_check_run_method: "orderly (check_run_method cls body file)"
proof (cases "run_method body")
  case None
  then show ?thesis by (simp add: check_run_method_def)
next
  case (Some m)
  then show ?thesis
    by (cases m) (simp_all add: check_run_method_def orderly_print)
qed

lemma orderly_check_flow_file: "orderly (check_flow_file f)"
  by (auto simp: check_flow_file_def check_flow_tree_def orderly_check_run_method
      split: sum.splits list.splits)

lemma orderly_check_flow_run_signature: "orderly (check_flow_run_signature pr)"
  unfolding check_flow_run_signature_def
  by (rule orderly_seq_map) (rule orderly_check_flow_file)

lemma orderly_check_structure: "orderly (check_structure pr)"
  unfolding check_structure_def
  by (intro orderly_seq orderly_seq_map) (auto simp: orderly_print orderly_seq_map split: prod.splits)

lemma orderly_check_demo_main: "orderly (check_demo_main pr)"
  by (auto simp: check_demo_main_def check_demo_tree_def orderly_print
      split: option.splits fsnode.splits)

lemma orderly_check_file_length: "orderly (check_file_length f max_lines)"
  by (auto simp: check_file_length_def split: fsnode.splits)

lemma orderly_check_all_python_files_length: "orderly (check_all_python_files_length max_lines pr)"
  unfolding check_all_python_files_length_def
  by (rule orderly_seq_map) (simp add: orderly_check_file_length)

lemma orderly_check_readme: "orderly (check_readme lower pr)"
  by (auto simp: check_readme_def check_readme_content_def orderly_print
      split: option.splits fsnode.splits)

lemma orderly_check_app_directory_contents: "orderly (check_app_directory_contents pr)"
proof (cases "is_dir pr [''app'']")
  case False
  then show ?thesis by (simp add: check_app_directory_contents_def)
next
  case True
  have "orderly (seq (map (\<lambda>(name, item).
                       if is_Dir item then
                         (if name \<notin> {''outsource''} then fail (AppBadDirectory name) else skip)
                       else if is_File item then
                         (if name \<notin> {''consts.py'', ''__init__.py''} then fail (AppBadFile name)
                          else skip)
                       else skip)
                     (iterdir pr [''app''])))"
    by (rule orderly_seq_map) (auto split: prod.splits)
  with True show ?thesis
    by (simp add: check_app_directory_contents_def orderly_then_run orderly_print)
qed

lemma orderly_check_project_structure: "orderly (check_project_structure pr)"
  unfolding check_project_structure_def
  by (intro orderly_seq orderly_seq_map) (auto simp: orderly_print orderly_seq_map split: prod.splits)

lemma orderly_check_import_node: "orderly (check_import_node local p node)"
  by (cases node) (auto simp: check_import_name_def intro!: orderly_seq_map split: option.splits)

lemma orderly_check_app_imports: "orderly (check_app_imports pr)"
  unfolding check_app_imports_def
  by (intro orderly_seq orderly_seq_map)
     (auto simp: orderly_print check_app_file_def orderly_check_import_node
           intro!: orderly_seq_map split: sum.splits)

lemma orderly_checks: "c \<in> set (checks lower pr) \<Longrightarrow> orderly c"
  by (auto simp: checks_def orderly_check_project_structure orderly_check_app_directory_contents
      orderly_check_app_imports orderly_check_structure orderly_check_demo_main
      orderly_check_flow_run_signature orderly_check_readme orderly_check_all_python_files_length)

lemma main_checks: "main lower pr = seq (print Starting # checks lower pr @ [print AllPassed])"
  by (simp add: main_def checks_def)

lemma seq_stopped: "snd (seq rs) \<noteq> Returned \<Longrightarrow> seq (rs @ others) = seq rs"
  by (cases "seq rs") (auto simp: seq_append then_run_def split: status.splits)

lemma seq_no_banner:
  "(\<And>r. r \<in> set rs \<Longrightarrow> AllPassed \<notin> set (fst r)) \<Longrightarrow> AllPassed \<notin> set (fst (seq rs))"
  by (induction rs) (auto simp: then_run_def skip_def split: status.splits)

lemma first_stop_index:
  assumes "k < length cs" and "\<forall>j<k. snd (cs ! j) = Returned" and "snd (cs ! k) \<noteq> Returned"
  shows "seq (r0 # cs @ others) = then_run r0 (concat (map fst (take k cs)) @ fst (cs ! k), snd (cs ! k))"
proof -
  have split: "cs = take k cs @ cs ! k # drop (Suc k) cs"
    using assms(1) by (simp add: id_take_nth_drop)
  have pre: "\<forall>r\<in>set (take k cs). snd r = Returned"
  proof
    fix r
    assume "r \<in> set (take k cs)"
    then obtain i where "i < k" "r = cs ! i"
      by (auto simp: in_set_conv_nth)
    with assms(2) show "snd r = Returned" by simp
  qed
  have "seq (cs @ others) = seq (take k cs @ cs ! k # (drop (Suc k) cs @ others))"
    using split by (metis append.assoc append_Cons)
  also have "\<dots> = (concat (map fst (take k cs)) @ fst (cs ! k), snd (cs ! k))"
    using pre assms(3) by (rule seq_first_stop)
  finally show ?thesis by simp
qed

text \<open>
  C9. \<^verbatim>\<open>main\<close> runs the eight checks in the order listed. The exit code is 0 exactly
  when every check returns, and the closing banner is printed exactly then; the output
  is then the opening line, the lines of the checks in order and the banner, with no
  cross. When check number \<open>k\<close> is the first that does not return, the output is the
  opening line, the lines of the checks before it and its own lines, and the run ends as
  that check ended: the checks after it add nothing. When the run ends through
  \<^verbatim>\<open>sys.exit\<close>, the code is 1 and the output has exactly one cross, its last line.
\<close>

theorem fail_fast_run:
  "checks lower pr =
     [check_project_structure pr, check_app_directory_contents pr, check_app_imports pr,
      check_structure pr, check_demo_main pr, check_flow_run_signature pr,
      check_readme lower pr, check_all_python_files_length 1000 pr]
   \<and> (exit_code (snd (main lower pr)) = 0 \<longleftrightarrow> (\<forall>c\<in>set (checks lower pr). snd c = Returned))
   \<and> (AllPassed \<in> set (fst (main lower pr)) \<longleftrightarrow> (\<forall>c\<in>set (checks lower pr). snd c = Returned))
   \<and> ((\<forall>c\<in>set (checks lower pr). snd c = Returned) \<longrightarrow>
        main lower pr = (Starting # concat (map fst (checks lower pr)) @ [AllPassed], Returned)
        \<and> \<not> list_ex is_cross (fst (main lower pr)))
   \<and> (\<forall>k<length (checks lower pr).
        (\<forall>j<k. snd (checks lower pr ! j) = Returned) \<and> snd (checks lower pr ! k) \<noteq> Returned
        \<longrightarrow> main lower pr =
              (Starting # concat (map fst (take k (checks lower pr))) @ fst (checks lower pr ! k),
               snd (checks lower pr ! k)))
   \<and> (\<forall>n. snd (main lower pr) = Exited n \<longrightarrow>
        n = 1 \<and> (\<exists>ls m. fst (main lower pr) = ls @ [Cross m] \<and> \<not> list_ex is_cross ls))"
proof -
  let ?cs = "checks lower pr"
  have ord: "tidy (main lower pr)"
    unfolding main_checks
    by (rule tidy_seq) (auto simp: tidy_print dest: orderly_checks simp: orderly_def)
  have ret: "snd (main lower pr) = Returned \<longleftrightarrow> (\<forall>c\<in>set ?cs. snd c = Returned)"
    unfolding main_checks seq_Returned_iff by (auto simp: print_def)
  have 1: "exit_code (snd (main lower pr)) = 0 \<longleftrightarrow> (\<forall>c\<in>set ?cs. snd c = Returned)"
  proof -
    have "exit_code (snd (main lower pr)) = 0 \<longleftrightarrow> snd (main lower pr) = Returned"
      using ord by (cases "snd (main lower pr)") (auto simp: tidy_def)
    with ret show ?thesis by simp
  qed
  have all: "main lower pr = (Starting # concat (map fst ?cs) @ [AllPassed], Returned)"
    if "\<forall>c\<in>set ?cs. snd c = Returned"
  proof -
    have "\<forall>r\<in>set (print Starting # ?cs @ [print AllPassed]). snd r = Returned"
      using that by (auto simp: print_def)
    from seq_all_Returned [OF this] show ?thesis
      by (simp add: main_checks print_def)
  qed
  have 3: "(\<forall>c\<in>set ?cs. snd c = Returned) \<longrightarrow>
        main lower pr = (Starting # concat (map fst ?cs) @ [AllPassed], Returned)
        \<and> \<not> list_ex is_cross (fst (main lower pr))"
  proof
    assume a: "\<forall>c\<in>set ?cs. snd c = Returned"
    with ret have "snd (main lower pr) = Returned" by simp
    with ord have "\<not> list_ex is_cross (fst (main lower pr))" by (simp add: tidy_def)
    with all [OF a] show "main lower pr = (Starting # concat (map fst ?cs) @ [AllPassed], Returned)
        \<and> \<not> list_ex is_cross (fst (main lower pr))" by simp
  qed
  have 2: "AllPassed \<in> set (fst (main lower pr)) \<longleftrightarrow> (\<forall>c\<in>set ?cs. snd c = Returned)"
  proof
    assume b: "AllPassed \<in> set (fst (main lower pr))"
    show "\<forall>c\<in>set ?cs. snd c = Returned"
    proof (rule ccontr)
      assume n: "\<not> (\<forall>c\<in>set ?cs. snd c = Returned)"
      then have "snd (seq (print Starting # ?cs)) \<noteq> Returned"
        unfolding seq_Returned_iff by auto
      from seq_stopped [OF this, of "[print AllPassed]"]
      have "main lower pr = seq (print Starting # ?cs)" by (simp add: main_checks)
      moreover have "AllPassed \<notin> set (fst (seq (print Starting # ?cs)))"
      proof (rule seq_no_banner)
        fix r
        assume "r \<in> set (print Starting # ?cs)"
        then consider "r = print Starting" | "r \<in> set ?cs" by auto
        then show "AllPassed \<notin> set (fst r)"
        proof cases
          case 1
          then show ?thesis by (simp add: print_def)
        next
          case 2
          from orderly_checks [OF this] show ?thesis by (simp add: orderly_def)
        qed
      qed
      ultimately show False using b by simp
    qed
  next
    assume "\<forall>c\<in>set ?cs. snd c = Returned"
    from all [OF this] show "AllPassed \<in> set (fst (main lower pr))" by simp
  qed
  have 4: "\<forall>k<length ?cs.
        (\<forall>j<k. snd (?cs ! j) = Returned) \<and> snd (?cs ! k) \<noteq> Returned
        \<longrightarrow> main lower pr =
              (Starting # concat (map fst (take k ?cs)) @ fst (?cs ! k), snd (?cs ! k))"
  proof (intro allI impI)
    fix k
    assume k: "k < length ?cs"
      and "(\<forall>j<k. snd (?cs ! j) = Returned) \<and> snd (?cs ! k) \<noteq> Returned"
    then have "seq (print Starting # ?cs @ [print AllPassed])
      = then_run (print Starting) (concat (map fst (take k ?cs)) @ fst (?cs ! k), snd (?cs ! k))"
      by (intro first_stop_index) auto
    then show "main lower pr =
              (Starting # concat (map fst (take k ?cs)) @ fst (?cs ! k), snd (?cs ! k))"
      by (simp add: main_checks print_def then_run_def)
  qed
  have 5: "\<forall>n. snd (main lower pr) = Exited n \<longrightarrow>
        n = 1 \<and> (\<exists>ls m. fst (main lower pr) = ls @ [Cross m] \<and> \<not> list_ex is_cross ls)"
  proof (intro allI impI)
    fix n
    assume e: "snd (main lower pr) = Exited n"
    with ord have o: "n = 1" "fst (main lower pr) \<noteq> []" "is_cross (last (fst (main lower pr)))"
      "\<not> list_ex is_cross (butlast (fst (main lower pr)))"
      by (simp_all add: tidy_def)
    from o(3) obtain m where "last (fst (main lower pr)) = Cross m"
      by (cases "last (fst (main lower pr))") auto
    with o(2) have "fst (main lower pr) = butlast (fst (main lower pr)) @ [Cross m]"
      by (metis append_butlast_last_id)
    with o(1,4) show "n = 1 \<and> (\<exists>ls m. fst (main lower pr) = ls @ [Cross m] \<and> \<not> list_ex is_cross ls)"
      by blast
  qed
  from 1 2 3 4 5 checks_def [of lower pr] show ?thesis by (intro conjI)
qed

text \<open>
  Instances, with the identity for the case mapping: a complete project, whose README
  reads \<^verbatim>\<open># Demo\<close> and then \<^verbatim>\<open>install with pip, then run main\<close>, passes every check and
  exits with code 0; an empty project root stops at the first check.
\<close>

theorem fail_fast_run_witness:
  "main (\<lambda>s. s)
     \<lparr>project_root = [''/'', ''proj''],
      entries =
        [(''app'', Dir
           [(''consts.py'', File \<lparr>read_text = [], ast_parse = Some []\<rparr>),
            (''outsource'', Dir
               [(''flows'', Dir
                  [(''demo_flow.py'', File
                     \<lparr>read_text = [],
                      ast_parse = Some
                        [ClassDef ''DemoFlow''
                           [AsyncFunctionDef ''run''
                              \<lparr>posonlyargs = [], args = [''cls''], vararg = None,
                               kwonlyargs = [''total_usage''], kwarg = None\<rparr>
                              [] [Name ''classmethod'']]]\<rparr>)])])]),
         (''demonstration'', Dir
           [(''main.py'', File
              \<lparr>read_text = [],
               ast_parse = Some
                 [AsyncFunctionDef ''main''
                    \<lparr>posonlyargs = [], args = [], vararg = None, kwonlyargs = [],
                     kwarg = None\<rparr> [] [],
                  Expr (Call (Attribute (Name ''asyncio'') ''run'')
                          [Call (Name ''main'') []])]\<rparr>)]),
         (''eksmo_src'', Dir []),
         (''.pre-commit-config.yaml'', File \<lparr>read_text = [], ast_parse = None\<rparr>),
         (''pyproject.toml'', File \<lparr>read_text = [], ast_parse = None\<rparr>),
         (''README.md'', File
            \<lparr>read_text =
                [35, 32, 68, 101, 109, 111, 10, 105, 110, 115, 116, 97, 108, 108, 32, 119,
                 105, 116, 104, 32, 112, 105, 112, 44, 32, 116, 104, 101, 110, 32, 114, 117,
                 110, 32, 109, 97, 105, 110, 10],
             ast_parse = None\<rparr>)]\<rparr>
   = ([Starting, ProjectStructureOk, AppContentsOk, AppImportsOk, FlowsStructureOk, DemoMainOk,
       RunOk ''DemoFlow'' ''demo_flow.py'', ReadmeOk, AllPassed], Returned)
   \<and> exit_code (snd (main (\<lambda>s. s)
     \<lparr>project_root = [''/'', ''proj''],
      entries =
        [(''app'', Dir
           [(''consts.py'', File \<lparr>read_text = [], ast_parse = Some []\<rparr>),
            (''outsource'', Dir
               [(''flows'', Dir
                  [(''demo_flow.py'', File
                     \<lparr>read_text = [],
                      ast_parse = Some
                        [ClassDef ''DemoFlow''
                           [AsyncFunctionDef ''run''
                              \<lparr>posonlyargs = [], args = [''cls''], vararg = None,
                               kwonlyargs = [''total_usage''], kwarg = None\<rparr>
                              [] [Name ''classmethod'']]]\<rparr>)])])]),
         (''demonstration'', Dir
           [(''main.py'', File
              \<lparr>read_text = [],
               ast_parse = Some
                 [AsyncFunctionDef ''main''
                    \<lparr>posonlyargs = [], args = [], vararg = None, kwonlyargs = [],
                     kwarg = None\<rparr> [] [],
                  Expr (Call (Attribute (Name ''asyncio'') ''run'')
                          [Call (Name ''main'') []])]\<rparr>)]),
         (''eksmo_src'', Dir []),
         (''.pre-commit-config.yaml'', File \<lparr>read_text = [], ast_parse = None\<rparr>),
         (''pyproject.toml'', File \<lparr>read_text = [], ast_parse = None\<rparr>),
         (''README.md'', File
            \<lparr>read_text =
                [35, 32, 68, 101, 109, 111, 10, 105, 110, 115, 116, 97, 108, 108, 32, 119,
                 105, 116, 104, 32, 112, 105, 112, 44, 32, 116, 104, 101, 110, 32, 114, 117,
                 110, 32, 109, 97, 105, 110, 10],
             ast_parse = None\<rparr>)]\<rparr>)) = 0
   \<and> main (\<lambda>s. s) \<lparr>project_root = [''/'', ''proj''], entries = []\<rparr>
     = ([Starting, Cross (MissingDirectory ''app'' [''/'', ''proj'', ''app''])], Exited 1)"
proof -
  let ?pr = "\<lparr>project_root = [''/'', ''proj''],
      entries =
        [(''app'', Dir
           [(''consts.py'', File \<lparr>read_text = [], ast_parse = Some []\<rparr>),
            (''outsource'', Dir
               [(''flows'', Dir
                  [(''demo_flow.py'', File
                     \<lparr>read_text = [],
                      ast_parse = Some
                        [ClassDef ''DemoFlow''
                           [AsyncFunctionDef ''run''
                              \<lparr>posonlyargs = [], args = [''cls''], vararg = None,
                               kwonlyargs = [''total_usage''], kwarg = None\<rparr>
                              [] [Name ''classmethod'']]]\<rparr>)])])]),
         (''demonstration'', Dir
           [(''main.py'', File
              \<lparr>read_text = [],
               ast_parse = Some
                 [AsyncFunctionDef ''main''
                    \<lparr>posonlyargs = [], args = [], vararg = None, kwonlyargs = [],
                     kwarg = None\<rparr> [] [],
                  Expr (Call (Attribute (Name ''asyncio'') ''run'')
                          [Call (Name ''main'') []])]\<rparr>)]),
         (''eksmo_src'', Dir []),
         (''.pre-commit-config.yaml'', File \<lparr>read_text = [], ast_parse = None\<rparr>),
         (''pyproject.toml'', File \<lparr>read_text = [], ast_parse = None\<rparr>),
         (''README.md'', File
            \<lparr>read_text =
                [35, 32, 68, 101, 109, 111, 10, 105, 110, 115, 116, 97, 108, 108, 32, 119,
                 105, 116, 104, 32, 112, 105, 112, 44, 32, 116, 104, 101, 110, 32, 114, 117,
                 110, 32, 109, 97, 105, 110, 10],
             ast_parse = None\<rparr>)]\<rparr>"
  let ?empty = "\<lparr>project_root = [''/'', ''proj''], entries = []\<rparr>"
  have cs: "checks (\<lambda>s. s) ?pr =
     [([ProjectStructureOk], Returned), ([AppContentsOk], Returned), ([AppImportsOk], Returned),
      ([FlowsStructureOk], Returned), ([DemoMainOk], Returned),
      ([RunOk ''DemoFlow'' ''demo_flow.py''], Returned), ([ReadmeOk], Returned), ([], Returned)]"
    by (simp add: checks_def check_project_structure_def required_structure_def endswith_def
      is_file_def is_dir_def exists_def iterdir_def check_app_directory_contents_def
      check_app_imports_def rglob_def abspath_def check_app_file_def check_structure_def
      FLOWS_DIR_def check_demo_main_def main_path_def check_demo_tree_def has_arguments_def
      invokes_main_def check_flow_run_signature_def glob_def check_flow_file_def
      check_flow_tree_def flow_classes_def check_run_method_def has_classmethod_def name_of_def
      check_readme_def check_readme_content_def strip_def isspace_def startswith_def
      splitlines_def line_boundary_def install_keywords_def run_keywords_def
      check_all_python_files_length_def check_file_length_def
      print_def skip_def fail_def then_run_def)
  then have ok: "\<forall>c\<in>set (checks (\<lambda>s. s) ?pr). snd c = Returned"
    by simp
  from fail_fast_run [of "\<lambda>s. s" ?pr, THEN conjunct2, THEN conjunct2, THEN conjunct2,
      THEN conjunct1] ok
  have "main (\<lambda>s. s) ?pr
      = (Starting # concat (map fst (checks (\<lambda>s. s) ?pr)) @ [AllPassed], Returned)"
    by blast
  then have a: "main (\<lambda>s. s) ?pr
   = ([Starting, ProjectStructureOk, AppContentsOk, AppImportsOk, FlowsStructureOk, DemoMainOk,
       RunOk ''DemoFlow'' ''demo_flow.py'', ReadmeOk, AllPassed], Returned)"
    unfolding cs by simp
  from fail_fast_run [of "\<lambda>s. s" ?pr, THEN conjunct2, THEN conjunct1] ok
  have b: "exit_code (snd (main (\<lambda>s. s) ?pr)) = 0"
    by blast
  have first: "checks (\<lambda>s. s) ?empty ! 0
      = ([Cross (MissingDirectory ''app'' [''/'', ''proj'', ''app''])], Exited 1)"
    by (simp add: checks_def check_project_structure_def required_structure_def endswith_def
        is_file_def is_dir_def abspath_def fail_def then_run_def)
  have len: "0 < length (checks (\<lambda>s. s) ?empty)"
    by (simp add: checks_def)
  from fail_fast_run [of "\<lambda>s. s" ?empty, THEN conjunct2, THEN conjunct2, THEN conjunct2,
      THEN conjunct2, THEN conjunct1, rule_format, of 0] len first
  have "main (\<lambda>s. s) ?empty
      = (Starting # concat (map fst (take 0 (checks (\<lambda>s. s) ?empty)))
           @ fst (checks (\<lambda>s. s) ?empty ! 0), snd (checks (\<lambda>s. s) ?empty ! 0))"
    by simp
  then have c: "main (\<lambda>s. s) ?empty
     = ([Starting, Cross (MissingDirectory ''app'' [''/'', ''proj'', ''app''])], Exited 1)"
    unfolding first by simp
  from a b c show ?thesis by (intro conjI)
qed

end
